theory Spec2Isabelle
  imports Main "HOL-Library.Word"
begin

section \<open>JavaScript strings, buffers and errors\<close>

text \<open>
  A JavaScript string is a sequence of 16-bit code units; \<open>length\<close> counts code
  units, and a regular expression without the \<open>u\<close> flag tests code units. Binary
  buffers (\<open>Uint8Array\<close>, \<open>ArrayBuffer\<close>) are lists of 8-bit bytes.
\<close>

type_synonym code_unit = "16 word"
type_synonym js_string = "code_unit list"
type_synonym byte = "8 word"
type_synonym bytes = "byte list"

text \<open>An ASCII literal of the source, as a JavaScript string.\<close>

definition lit :: "string \<Rightarrow> js_string" where
  "lit s = map (\<lambda>c. of_nat (of_char c)) s"

text \<open>
  Exceptions are values. \<open>EncryptFailed e\<close> and \<open>DecryptFailed e\<close> are the
  \<open>Error\<close> objects that \<open>encryptText\<close> and \<open>decryptText\<close> build around a caught
  error \<open>e\<close> (their messages prefix the message of \<open>e\<close>); \<open>UnsupportedAlgorithm\<close>
  is the \<open>Error\<close> thrown by \<open>decryptText\<close> for an algorithm other than AES-256-GCM.
  \<open>IOError\<close> stands for a failure of the file system.
\<close>

datatype js_error =
    AbortError
  | InvalidCharacterError
  | OperationError
  | SyntaxError
  | TypeError
  | IOError
  | UnsupportedAlgorithm
  | EncryptFailed js_error
  | DecryptFailed js_error

text \<open>Sequencing of steps that may throw: the first error ends the computation.\<close>

definition and_then :: "'e + 'a \<Rightarrow> ('a \<Rightarrow> 'e + 'b) \<Rightarrow> 'e + 'b" where
  "and_then m f = (case m of Inl e \<Rightarrow> Inl e | Inr x \<Rightarrow> f x)"

section \<open>Text encoding: TextEncoder and TextDecoder\<close>

text \<open>
  \<open>TextEncoder.encode\<close> takes a \<open>USVString\<close>: the code units are read as scalar
  values, a surrogate pair as one supplementary code point and an unpaired surrogate as
  U+FFFD, and every scalar value is written in UTF-8.
\<close>

definition is_high_surrogate :: "code_unit \<Rightarrow> bool" where
  "is_high_surrogate c = (0xD800 \<le> c \<and> c \<le> 0xDBFF)"

definition is_low_surrogate :: "code_unit \<Rightarrow> bool" where
  "is_low_surrogate c = (0xDC00 \<le> c \<and> c \<le> 0xDFFF)"

fun to_scalar_values :: "js_string \<Rightarrow> nat list" where
  "to_scalar_values [] = []"
| "to_scalar_values [c] =
     [if is_high_surrogate c \<or> is_low_surrogate c then 0xFFFD else unat c]"
| "to_scalar_values (c # d # s) =
     (if is_high_surrogate c \<and> is_low_surrogate d
      then (0x10000 + (unat c - 0xD800) * 0x400 + (unat d - 0xDC00)) # to_scalar_values s
      else (if is_high_surrogate c \<or> is_low_surrogate c then 0xFFFD else unat c)
           # to_scalar_values (d # s))"

definition utf8_encode_scalar :: "nat \<Rightarrow> nat list" where
  "utf8_encode_scalar cp =
     (if cp < 0x80 then [cp]
      else if cp < 0x800 then [0xC0 + cp div 0x40, 0x80 + cp mod 0x40]
      else if cp < 0x10000
        then [0xE0 + cp div 0x1000, 0x80 + cp div 0x40 mod 0x40, 0x80 + cp mod 0x40]
      else [0xF0 + cp div 0x40000, 0x80 + cp div 0x1000 mod 0x40,
            0x80 + cp div 0x40 mod 0x40, 0x80 + cp mod 0x40])"

definition TextEncoder_encode :: "js_string \<Rightarrow> bytes" where
  "TextEncoder_encode s = map of_nat (concat (map utf8_encode_scalar (to_scalar_values s)))"

text \<open>
  \<open>new TextDecoder().decode\<close> runs the UTF-8 decoder of the Encoding Standard with
  replacement of malformed sequences by U+FFFD (\<open>fatal\<close> is false) and drops a leading
  U+FEFF (\<open>ignoreBOM\<close> is false). The decoder's state is the code point being
  assembled, the continuation bytes seen and needed, and the bounds of the next byte;
  \<open>b mod 0x20\<close> is the standard's \<open>b AND 0x1F\<close>, and \<open>cp * 0x40 + b mod 0x40\<close> its
  \<open>(cp << 6) OR (b AND 0x3F)\<close>.
\<close>

datatype utf8_state =
  Utf8State (code_point: nat) (bytes_seen: nat) (bytes_needed: nat)
            (lower_boundary: nat) (upper_boundary: nat)

definition utf8_init :: utf8_state where
  "utf8_init = Utf8State 0 0 0 0x80 0xBF"

text \<open>A byte read when no continuation byte is needed: the output and the next state.\<close>

definition utf8_lead :: "nat \<Rightarrow> nat list \<times> utf8_state" where
  "utf8_lead b =
     (if b \<le> 0x7F then ([b], utf8_init)
      else if 0xC2 \<le> b \<and> b \<le> 0xDF then ([], Utf8State (b mod 0x20) 0 1 0x80 0xBF)
      else if 0xE0 \<le> b \<and> b \<le> 0xEF
        then ([], Utf8State (b mod 0x10) 0 2 (if b = 0xE0 then 0xA0 else 0x80)
                                         (if b = 0xED then 0x9F else 0xBF))
      else if 0xF0 \<le> b \<and> b \<le> 0xF4
        then ([], Utf8State (b mod 8) 0 3 (if b = 0xF0 then 0x90 else 0x80)
                                       (if b = 0xF4 then 0x8F else 0xBF))
      else ([0xFFFD], utf8_init))"

text \<open>
  A byte outside the bounds ends the sequence with U+FFFD and is read again as a first
  byte; the end of the input inside a sequence gives U+FFFD.
\<close>

fun utf8_decoder :: "utf8_state \<Rightarrow> nat list \<Rightarrow> nat list" where
  "utf8_decoder st [] = (if bytes_needed st \<noteq> 0 then [0xFFFD] else [])"
| "utf8_decoder st (b # bs) =
     (if bytes_needed st = 0
        then (case utf8_lead b of (out, st') \<Rightarrow> out @ utf8_decoder st' bs)
      else if b < lower_boundary st \<or> upper_boundary st < b
        then 0xFFFD # (case utf8_lead b of (out, st') \<Rightarrow> out @ utf8_decoder st' bs)
      else
        (let cp = code_point st * 0x40 + b mod 0x40 in
         if bytes_seen st + 1 \<noteq> bytes_needed st
           then utf8_decoder (Utf8State cp (bytes_seen st + 1) (bytes_needed st) 0x80 0xBF) bs
         else cp # utf8_decoder utf8_init bs))"

definition code_units_of :: "nat \<Rightarrow> js_string" where
  "code_units_of cp =
     (if cp < 0x10000 then [of_nat cp]
      else [of_nat (0xD800 + (cp - 0x10000) div 0x400),
            of_nat (0xDC00 + (cp - 0x10000) mod 0x400)])"

definition from_code_points :: "nat list \<Rightarrow> js_string" where
  "from_code_points cps = concat (map code_units_of cps)"

definition TextDecoder_decode :: "bytes \<Rightarrow> js_string" where
  "TextDecoder_decode buf =
     (let cps = utf8_decoder utf8_init (map unat buf) in
      from_code_points (case cps of [] \<Rightarrow> [] | cp # r \<Rightarrow> if cp = 0xFEFF then r else cps))"

text \<open>
  The strings that survive encoding and decoding: every surrogate is half of a pair
  (\<open>well_formed\<close>), and the scalar values of Unicode (\<open>is_scalar\<close>).
\<close>

fun well_formed :: "js_string \<Rightarrow> bool" where
  "well_formed [] = True"
| "well_formed [c] = (\<not> is_high_surrogate c \<and> \<not> is_low_surrogate c)"
| "well_formed (c # d # s) =
     (if is_high_surrogate c then is_low_surrogate d \<and> well_formed s
      else \<not> is_low_surrogate c \<and> well_formed (d # s))"

definition is_scalar :: "nat \<Rightarrow> bool" where
  "is_scalar cp = (cp < 0x110000 \<and> \<not> (0xD800 \<le> cp \<and> cp \<le> 0xDFFF))"

section \<open>Base64: btoa and atob\<close>

text \<open>
  \<open>btoa\<close> encodes a binary string (code units up to 0xFF) and throws
  InvalidCharacterError on any other; \<open>atob\<close> is the forgiving-base64 decode of the
  Infra Standard: ASCII whitespace is removed, one or two padding characters are removed
  from a length divisible by 4, and a length of 1 modulo 4 or a character outside the
  alphabet is an error.
\<close>

definition b64_char :: "nat \<Rightarrow> code_unit" where
  "b64_char n =
     of_nat (if n < 26 then 0x41 + n
             else if n < 52 then 0x61 + (n - 26)
             else if n < 62 then 0x30 + (n - 52)
             else if n = 62 then 0x2B else 0x2F)"

definition b64_index :: "code_unit \<Rightarrow> nat option" where
  "b64_index c =
     (let n = unat c in
      if 0x41 \<le> n \<and> n \<le> 0x5A then Some (n - 0x41)
      else if 0x61 \<le> n \<and> n \<le> 0x7A then Some (n - 0x61 + 26)
      else if 0x30 \<le> n \<and> n \<le> 0x39 then Some (n - 0x30 + 52)
      else if n = 0x2B then Some 62
      else if n = 0x2F then Some 63
      else None)"

fun b64_sextets :: "nat list \<Rightarrow> nat list" where
  "b64_sextets [] = []"
| "b64_sextets [a] = [a div 4, a mod 4 * 16]"
| "b64_sextets [a, b] = [a div 4, a mod 4 * 16 + b div 16, b mod 16 * 4]"
| "b64_sextets (a # b # c # r) =
     [a div 4, a mod 4 * 16 + b div 16, b mod 16 * 4 + c div 64, c mod 64] @ b64_sextets r"

definition btoa :: "js_string \<Rightarrow> js_error + js_string" where
  "btoa s =
     (if list_ex (\<lambda>c. 0xFF < c) s then Inl InvalidCharacterError
      else Inr (map b64_char (b64_sextets (map unat s))
                @ replicate ((3 - length s mod 3) mod 3) 0x3D))"

definition ascii_whitespace :: "code_unit \<Rightarrow> bool" where
  "ascii_whitespace c = (c = 0x09 \<or> c = 0x0A \<or> c = 0x0C \<or> c = 0x0D \<or> c = 0x20)"

definition strip_padding :: "js_string \<Rightarrow> js_string" where
  "strip_padding data =
     (if length data mod 4 = 0 then
        (if 2 \<le> length data \<and> last data = 0x3D \<and> last (butlast data) = 0x3D
           then butlast (butlast data)
         else if data \<noteq> [] \<and> last data = 0x3D then butlast data
         else data)
      else data)"

fun b64_octets :: "nat list \<Rightarrow> nat list" where
  "b64_octets (a # b # c # d # r) =
     [a * 4 + b div 16, b mod 16 * 16 + c div 4, c mod 4 * 64 + d] @ b64_octets r"
| "b64_octets [a, b, c] = [a * 4 + b div 16, b mod 16 * 16 + c div 4]"
| "b64_octets [a, b] = [a * 4 + b div 16]"
| "b64_octets [a] = []"
| "b64_octets [] = []"

definition atob :: "js_string \<Rightarrow> js_error + js_string" where
  "atob s =
     (let data = strip_padding (filter (\<lambda>c. \<not> ascii_whitespace c) s) in
      if length data mod 4 = 1 then Inl InvalidCharacterError
      else (case those (map b64_index data) of
              None \<Rightarrow> Inl InvalidCharacterError
            | Some sx \<Rightarrow> Inr (map of_nat (b64_octets sx))))"

section \<open>JavaScript values\<close>

text \<open>
  The values that \<open>JSON.parse\<close> returns, and \<open>undefined\<close>. A number is
  represented by its decimal rendering (what \<open>Number.prototype.toString\<close> gives):
  the code below only tests numbers for truth and converts them to strings, and neither
  tells \<open>0\<close> from \<open>-0\<close>. An object is its list of own properties in insertion
  order, with distinct keys.
\<close>

datatype js_value =
    JUndefined
  | JNull
  | JBool bool
  | JNum js_string
  | JStr js_string
  | JArr "js_value list"
  | JObj "(js_string \<times> js_value) list"

fun truthy :: "js_value \<Rightarrow> bool" where
  "truthy JUndefined = False"
| "truthy JNull = False"
| "truthy (JBool b) = b"
| "truthy (JNum t) = (t \<noteq> lit ''0'' \<and> t \<noteq> lit ''NaN'')"
| "truthy (JStr s) = (s \<noteq> [])"
| "truthy (JArr xs) = True"
| "truthy (JObj kvs) = True"

text \<open>
  Reading a property: a TypeError on \<open>null\<close> and \<open>undefined\<close>, the own property
  of an object, \<open>undefined\<close> otherwise. The names read by the code below
  (\<open>encrypted\<close>, \<open>salt\<close>, \<open>iv\<close>, \<open>algorithm\<close>) are not properties of any
  built-in prototype.
\<close>

definition js_get :: "js_value \<Rightarrow> js_string \<Rightarrow> js_error + js_value" where
  "js_get v name =
     (case v of
        JUndefined \<Rightarrow> Inl TypeError
      | JNull \<Rightarrow> Inl TypeError
      | JObj kvs \<Rightarrow> Inr (case map_of kvs name of Some x \<Rightarrow> x | None \<Rightarrow> JUndefined)
      | _ \<Rightarrow> Inr JUndefined)"

text \<open>
  \<open>ToString\<close>, as applied to the argument of \<open>atob\<close> and of
  \<open>TextEncoder.encode\<close>. An array is joined with commas (\<open>null\<close> and
  \<open>undefined\<close> elements give the empty string); a parsed object is
  \<open>[object Object]\<close>, unless it has an own property \<open>toString\<close>, which is not
  callable and leaves no way to a primitive value (TypeError).
\<close>

fun ToString :: "js_value \<Rightarrow> js_error + js_string"
  and join_elements :: "js_value list \<Rightarrow> js_error + js_string" where
  "ToString JUndefined = Inr (lit ''undefined'')"
| "ToString JNull = Inr (lit ''null'')"
| "ToString (JBool b) = Inr (if b then lit ''true'' else lit ''false'')"
| "ToString (JNum t) = Inr t"
| "ToString (JStr s) = Inr s"
| "ToString (JArr xs) = join_elements xs"
| "ToString (JObj kvs) =
     (if map_of kvs (lit ''toString'') \<noteq> None then Inl TypeError
      else Inr (lit ''[object Object]''))"
| "join_elements [] = Inr []"
| "join_elements (x # xs) =
     (case (if x = JUndefined \<or> x = JNull then Inr [] else ToString x) of
        Inl e \<Rightarrow> Inl e
      | Inr s \<Rightarrow>
          (if xs = [] then Inr s
           else (case join_elements xs of
                   Inl e \<Rightarrow> Inl e
                 | Inr t \<Rightarrow> Inr (s @ lit '','' @ t))))"

text \<open>Setting a property keeps the position of an existing key and appends a new one.\<close>

fun set_prop :: "js_string \<Rightarrow> js_value \<Rightarrow> (js_string \<times> js_value) list
    \<Rightarrow> (js_string \<times> js_value) list" where
  "set_prop k v [] = [(k, v)]"
| "set_prop k v ((k', v') # r) =
     (if k' = k then (k, v) # r else (k', v') # set_prop k v r)"

function index_key :: "nat \<Rightarrow> js_string" where
  "index_key n =
     (if n < 10 then [of_nat (0x30 + n)]
      else index_key (n div 10) @ [of_nat (0x30 + n mod 10)])"
  by pat_completeness auto
termination
  by (relation "measure id") auto

text \<open>The own enumerable properties that an object spread \<open>{...v}\<close> copies.\<close>

definition own_props :: "js_value \<Rightarrow> (js_string \<times> js_value) list" where
  "own_props v =
     (case v of
        JObj kvs \<Rightarrow> kvs
      | JArr xs \<Rightarrow> zip (map index_key [0..<length xs]) xs
      | JStr s \<Rightarrow> zip (map index_key [0..<length s]) (map (\<lambda>c. JStr [c]) s)
      | _ \<Rightarrow> [])"

section \<open>The platform: JSON, Web Crypto, random values\<close>

text \<open>
  \<open>JSON.parse\<close> and \<open>JSON.stringify(v, null, 2)\<close> are functions of the platform:
  the model takes them as parameters. \<open>JSON_parse\<close> gives \<open>Inl SyntaxError\<close> for a
  text that is not JSON.
\<close>

record json_api =
  JSON_parse :: "js_string \<Rightarrow> js_error + js_value"
  JSON_stringify :: "js_value \<Rightarrow> js_string"

text \<open>
  \<open>crypto.subtle\<close>, as far as the code calls it: \<open>importKey\<close> of raw bytes for
  PBKDF2; \<open>deriveKey\<close> by PBKDF2 with SHA-256 from a salt, an iteration count and the
  imported password, giving a 256-bit AES-GCM key; and AES-GCM \<open>encrypt\<close> and
  \<open>decrypt\<close> with an initialisation vector, a key and the data. Each may throw.
\<close>

record ('pk, 'key) subtle_crypto =
  importKey :: "bytes \<Rightarrow> js_error + 'pk"
  deriveKey_PBKDF2 :: "bytes \<Rightarrow> nat \<Rightarrow> 'pk \<Rightarrow> js_error + 'key"
  encrypt_AES_GCM :: "bytes \<Rightarrow> 'key \<Rightarrow> bytes \<Rightarrow> js_error + bytes"
  decrypt_AES_GCM :: "bytes \<Rightarrow> 'key \<Rightarrow> bytes \<Rightarrow> js_error + bytes"

text \<open>
  The source of random bytes is an infinite stream; \<open>crypto.getRandomValues\<close> (and
  \<open>crypto.randomBytes\<close> on the server) takes the next \<open>n\<close> bytes of it.
\<close>

type_synonym entropy = "nat \<Rightarrow> byte"

definition getRandomValues :: "nat \<Rightarrow> entropy \<Rightarrow> bytes \<times> entropy" where
  "getRandomValues n rng = (map rng [0..<n], \<lambda>i. rng (i + n))"

section \<open>Client: utils/encryption\<close>

text \<open>
  The module that the client imports as \<open>@utils/encryption\<close>; in the sources it
  follows the settings page in \<open>client/src/pages/SettingsPage.jsx\<close>.
\<close>

definition DEFAULT_ENCRYPTION_PASSWORD :: js_string where
  "DEFAULT_ENCRYPTION_PASSWORD = lit ''textx_default_key_2024''"

definition getDefaultPassword :: js_string where
  "getDefaultPassword = DEFAULT_ENCRYPTION_PASSWORD"

text \<open>
  \<open>encoder.encode(str)\<close>: the argument is an optional \<open>USVString\<close>, so
  \<open>undefined\<close> is the empty string and any other value is converted by \<open>ToString\<close>
  (\<open>null\<close> is the text \<open>null\<close>).
\<close>

definition stringToArrayBuffer :: "js_value \<Rightarrow> js_error + bytes" where
  "stringToArrayBuffer str =
     (if str = JUndefined then Inr []
      else and_then (ToString str) (\<lambda>s. Inr (TextEncoder_encode s)))"

definition arrayBufferToString :: "bytes \<Rightarrow> js_string" where
  "arrayBufferToString buffer = TextDecoder_decode buffer"

text \<open>
  \<open>String.fromCharCode(bytes[i])\<close> widens a byte to a code unit; storing
  \<open>binary.charCodeAt(i)\<close> in a \<open>Uint8Array\<close> keeps its low 8 bits.
\<close>

definition arrayBufferToBase64 :: "bytes \<Rightarrow> js_error + js_string" where
  "arrayBufferToBase64 buffer = btoa (map ucast buffer)"

definition base64ToArrayBuffer :: "js_value \<Rightarrow> js_error + bytes" where
  "base64ToArrayBuffer base64 =
     and_then (ToString base64) (\<lambda>s.
     and_then (atob s) (\<lambda>binary.
       Inr (map ucast binary)))"

definition deriveKey :: "('pk, 'key) subtle_crypto \<Rightarrow> js_value \<Rightarrow> bytes \<Rightarrow> js_error + 'key" where
  "deriveKey W password salt =
     and_then (stringToArrayBuffer password) (\<lambda>passwordBuffer.
     and_then (importKey W passwordBuffer) (\<lambda>passwordKey.
       deriveKey_PBKDF2 W salt 100000 passwordKey))"

text \<open>
  \<open>encryptText\<close> returns its result (the envelope object, or the error it throws)
  and the rest of the random stream.
\<close>

definition encryptText :: "('pk, 'key) subtle_crypto \<Rightarrow> js_value \<Rightarrow> js_value \<Rightarrow> entropy
    \<Rightarrow> (js_error + js_value) \<times> entropy" where
  "encryptText W plaintext password rng =
     (let (salt, rng1) = getRandomValues 16 rng;
          (iv, rng2) = getRandomValues 12 rng1
      in
      (case
         and_then (deriveKey W password salt) (\<lambda>key.
         and_then (stringToArrayBuffer plaintext) (\<lambda>plaintextBuffer.
         and_then (encrypt_AES_GCM W iv key plaintextBuffer) (\<lambda>encryptedBuffer.
         and_then (arrayBufferToBase64 encryptedBuffer) (\<lambda>encrypted64.
         and_then (arrayBufferToBase64 salt) (\<lambda>salt64.
         and_then (arrayBufferToBase64 iv) (\<lambda>iv64.
           Inr (JObj [(lit ''encrypted'', JStr encrypted64),
                      (lit ''salt'', JStr salt64),
                      (lit ''iv'', JStr iv64),
                      (lit ''algorithm'', JStr (lit ''AES-256-GCM'')),
                      (lit ''version'', JStr (lit ''1.0''))])))))))
       of
         Inl e \<Rightarrow> Inl (EncryptFailed e)
       | Inr envelope \<Rightarrow> Inr envelope,
       rng2))"

definition decryptText :: "('pk, 'key) subtle_crypto \<Rightarrow> js_value \<Rightarrow> js_value
    \<Rightarrow> js_error + js_string" where
  "decryptText W encryptedData password =
     (case
        and_then (js_get encryptedData (lit ''encrypted'')) (\<lambda>encrypted.
        and_then (js_get encryptedData (lit ''salt'')) (\<lambda>salt.
        and_then (js_get encryptedData (lit ''iv'')) (\<lambda>iv.
        and_then (js_get encryptedData (lit ''algorithm'')) (\<lambda>algorithm.
          if algorithm \<noteq> JStr (lit ''AES-256-GCM'') then Inl UnsupportedAlgorithm
          else
            and_then (base64ToArrayBuffer encrypted) (\<lambda>encryptedBuffer.
            and_then (base64ToArrayBuffer salt) (\<lambda>saltBuffer.
            and_then (base64ToArrayBuffer iv) (\<lambda>ivBuffer.
            and_then (deriveKey W password saltBuffer) (\<lambda>key.
            and_then (decrypt_AES_GCM W ivBuffer key encryptedBuffer) (\<lambda>decryptedBuffer.
              Inr (arrayBufferToString decryptedBuffer))))))))))
      of
        Inl e \<Rightarrow> Inl (DecryptFailed e)
      | Inr s \<Rightarrow> Inr s)"

text \<open>
  \<open>isEncryptedData\<close> returns the value of its \<open>&&\<close> chain: the first operand that
  is not truthy, or the comparison of the algorithm; \<open>false\<close> when parsing throws.
\<close>

definition isEncryptedData :: "json_api \<Rightarrow> js_string \<Rightarrow> js_value" where
  "isEncryptedData J content =
     (case
        and_then (JSON_parse J content) (\<lambda>parsed.
          if \<not> truthy parsed then Inr parsed
          else
            and_then (js_get parsed (lit ''encrypted'')) (\<lambda>encrypted.
              if \<not> truthy encrypted then Inr encrypted
              else
                and_then (js_get parsed (lit ''salt'')) (\<lambda>salt.
                  if \<not> truthy salt then Inr salt
                  else
                    and_then (js_get parsed (lit ''iv'')) (\<lambda>iv.
                      if \<not> truthy iv then Inr iv
                      else
                        and_then (js_get parsed (lit ''algorithm'')) (\<lambda>algorithm.
                          Inr (JBool (algorithm = JStr (lit ''AES-256-GCM''))))))))
      of
        Inl e \<Rightarrow> JBool False
      | Inr v \<Rightarrow> v)"

section \<open>Client: password strength (utils/encryption, validatePasswordStrength)\<close>

text \<open>
  The suggestion texts of the source are Chinese literals; they are named here by what
  they ask for: \<open>EnterPassword\<close> ("please enter a password"), \<open>AtLeast8Chars\<close>,
  \<open>AddUppercase\<close>, \<open>AddLowercase\<close>, \<open>AddDigit\<close>, \<open>AddSpecial\<close>.
\<close>

datatype suggestion =
  EnterPassword | AtLeast8Chars | AddUppercase | AddLowercase | AddDigit | AddSpecial

record strength =
  score :: nat
  suggestions :: "suggestion list"
  isValid :: bool

text \<open>The character classes of the five regular expressions, on one code unit.\<close>

definition upper_AZ :: "code_unit \<Rightarrow> bool" where
  "upper_AZ c = (0x41 \<le> c \<and> c \<le> 0x5A)"

definition lower_az :: "code_unit \<Rightarrow> bool" where
  "lower_az c = (0x61 \<le> c \<and> c \<le> 0x7A)"

definition digit_09 :: "code_unit \<Rightarrow> bool" where
  "digit_09 c = (0x30 \<le> c \<and> c \<le> 0x39)"

definition not_alnum :: "code_unit \<Rightarrow> bool" where
  "not_alnum c = (\<not> (upper_AZ c \<or> lower_az c \<or> digit_09 c))"

text \<open>\<open>/[...]/.test(s)\<close>: some code unit of \<open>s\<close> is in the class.\<close>

definition regex_test :: "(code_unit \<Rightarrow> bool) \<Rightarrow> js_string \<Rightarrow> bool" where
  "regex_test cls s = list_ex cls s"

text \<open>One \<open>if (cond) score += 1 else suggestions.push(msg)\<close> statement.\<close>

definition check_rule :: "bool \<Rightarrow> suggestion \<Rightarrow> strength \<Rightarrow> strength" where
  "check_rule cond msg r =
     (if cond then r\<lparr>score := score r + 1\<rparr>
      else r\<lparr>suggestions := suggestions r @ [msg]\<rparr>)"

definition validatePasswordStrength :: "js_string \<Rightarrow> strength" where
  "validatePasswordStrength password =
     (let result = \<lparr>score = 0, suggestions = [], isValid = False\<rparr> in
      if password = [] then result\<lparr>suggestions := suggestions result @ [EnterPassword]\<rparr>
      else
        let result = check_rule (8 \<le> length password) AtLeast8Chars result;
            result = check_rule (regex_test upper_AZ password) AddUppercase result;
            result = check_rule (regex_test lower_az password) AddLowercase result;
            result = check_rule (regex_test digit_09 password) AddDigit result;
            result = check_rule (regex_test not_alnum password) AddSpecial result;
            result = (if 12 \<le> length password then result\<lparr>score := score result + 1\<rparr>
                      else result)
        in result\<lparr>isValid := (3 \<le> score result)\<rparr>)"

section \<open>Client: components/EncryptionManager\<close>

text \<open>
  \<open>formatEncryptedForSave\<close> spreads the envelope into a new object, sets
  \<open>createdAt\<close> to the current time (\<open>now\<close> is \<open>new Date().toISOString()\<close>) and
  \<open>version\<close> to \<open>1.0\<close>, and serialises it.
\<close>

definition formatEncryptedForSave :: "json_api \<Rightarrow> js_string \<Rightarrow> js_value \<Rightarrow> js_string" where
  "formatEncryptedForSave J now encryptedData =
     JSON_stringify J
       (JObj (set_prop (lit ''version'') (JStr (lit ''1.0''))
               (set_prop (lit ''createdAt'') (JStr now)
                 (own_props encryptedData))))"

text \<open>
  \<open>parseEncryptedFromSave\<close> returns the parsed value, or \<open>null\<close>: when one of the
  three properties is not truthy, and when parsing or a property access throws.
\<close>

definition parseEncryptedFromSave :: "json_api \<Rightarrow> js_string \<Rightarrow> js_value" where
  "parseEncryptedFromSave J fileContent =
     (case
        and_then (JSON_parse J fileContent) (\<lambda>parsed.
        and_then (js_get parsed (lit ''encrypted'')) (\<lambda>encrypted.
          if \<not> truthy encrypted then Inr JNull
          else
            and_then (js_get parsed (lit ''salt'')) (\<lambda>salt.
              if \<not> truthy salt then Inr JNull
              else
                and_then (js_get parsed (lit ''iv'')) (\<lambda>iv.
                  if \<not> truthy iv then Inr JNull
                  else Inr parsed))))
      of
        Inl e \<Rightarrow> JNull
      | Inr v \<Rightarrow> v)"

section \<open>Client: pages/EditorPage\<close>

text \<open>
  The state the page's callbacks act on: the store's current document, the
  password reference, the state of the decryption dialog and of the save dialog, and, as
  logs, the toasts shown, the completed file writes and the rest of the random stream.
  The toast texts are Chinese literals, named here by their meaning.
\<close>

record file_handle =
  handle_name :: js_string
  handle_id :: nat

record picked_file =
  file_name :: js_string
  file_text :: js_string
  file_lastModified :: nat
  picked_handle :: file_handle

record document =
  content :: js_string
  filePath :: "js_string option"
  fileName :: js_string
  fileHandle :: "file_handle option"
  isModified :: bool
  isEncrypted :: bool
  lastSaved :: "js_string option"

datatype pending_action =
  PendingOpen (pending_fileName: js_string) (pending_filePath: js_string)
              (pending_lastModified: nat) (pending_fileHandle: file_handle)

record encryption_dialog =
  dlg_isOpen :: bool
  dlg_mode :: js_string
  dlg_content :: js_string
  dlg_encryptedData :: js_value
  dlg_pendingAction :: "pending_action option"

datatype message =
    DocumentIsEmpty
  | SaveDocumentFailed
  | CannotOverwrite
  | DocumentSaved
  | OpenDocumentFailed
  | DocumentOpened
  | OpenedWithDefaultKey
  | PleaseEnterPassword
  | PasswordsDiffer
  | PasswordTooShort

datatype toast = ToastError message | ToastSuccess message

record editor =
  currentDocument :: document
  currentPasswordRef :: js_value
  encryptionDialog :: encryption_dialog
  showSaveDialog :: bool
  toasts :: "toast list"
  disk :: "(file_handle \<times> js_string) list"
  random_source :: entropy

text \<open>
  What the browser and the user decide: the file chosen in the open picker (or the error
  thrown, AbortError when the picker is dismissed), the handle chosen in the save picker
  for a suggested name, whether writing through a handle fails
  (\<open>createWritable\<close>, \<open>write\<close>, \<open>close\<close>), the reading of the clock, and the
  rendering of a time by \<open>toISOString\<close>.
\<close>

record editor_env =
  showOpenFilePicker :: "js_error + picked_file"
  showSaveFilePicker :: "js_string \<Rightarrow> bool \<Rightarrow> js_error + file_handle"
  write_file :: "file_handle \<Rightarrow> js_string \<Rightarrow> js_error option"
  toISOString :: "nat \<Rightarrow> js_string"
  new_Date :: nat

definition toast_error :: "message \<Rightarrow> editor \<Rightarrow> editor" where
  "toast_error m st = st\<lparr>toasts := toasts st @ [ToastError m]\<rparr>"

definition toast_success :: "message \<Rightarrow> editor \<Rightarrow> editor" where
  "toast_success m st = st\<lparr>toasts := toasts st @ [ToastSuccess m]\<rparr>"

text \<open>The store's actions (store/useAppStore).\<close>

definition setDocumentContent :: "js_string \<Rightarrow> editor \<Rightarrow> editor" where
  "setDocumentContent c st =
     st\<lparr>currentDocument := (currentDocument st)
          \<lparr>content := c, isModified := (content (currentDocument st) \<noteq> c)\<rparr>\<rparr>"

definition setDocumentInfo :: "(document \<Rightarrow> document) \<Rightarrow> editor \<Rightarrow> editor" where
  "setDocumentInfo info st = st\<lparr>currentDocument := info (currentDocument st)\<rparr>"

definition markDocumentSaved :: "editor_env \<Rightarrow> editor \<Rightarrow> editor" where
  "markDocumentSaved E st =
     st\<lparr>currentDocument := (currentDocument st)
          \<lparr>isModified := False, lastSaved := Some (toISOString E (new_Date E))\<rparr>\<rparr>"

text \<open>
  \<open>String.prototype.trim\<close> removes white space and line terminators from both ends.
\<close>

definition js_whitespace :: "code_unit \<Rightarrow> bool" where
  "js_whitespace c =
     (c = 0x09 \<or> c = 0x0A \<or> c = 0x0B \<or> c = 0x0C \<or> c = 0x0D \<or> c = 0x20 \<or> c = 0xA0
      \<or> c = 0x1680 \<or> (0x2000 \<le> c \<and> c \<le> 0x200A) \<or> c = 0x2028 \<or> c = 0x2029
      \<or> c = 0x202F \<or> c = 0x205F \<or> c = 0x3000 \<or> c = 0xFEFF)"

definition trim :: "js_string \<Rightarrow> js_string" where
  "trim s = rev (dropWhile js_whitespace (rev (dropWhile js_whitespace s)))"

text \<open>
  \<open>name.replace(/\.[^/.]+$/, ext)\<close>: the first position where a dot is followed,
  up to the end, by one or more characters other than \<open>/\<close> and \<open>.\<close> is replaced
  together with what follows it.
\<close>

fun replace_extension :: "js_string \<Rightarrow> js_string \<Rightarrow> js_string" where
  "replace_extension ext [] = []"
| "replace_extension ext (c # s) =
     (if c = 0x2E \<and> s \<noteq> [] \<and> list_all (\<lambda>d. d \<noteq> 0x2F \<and> d \<noteq> 0x2E) s then ext
      else c # replace_extension ext s)"

definition handleOpenDocument :: "editor_env \<Rightarrow> ('pk, 'key) subtle_crypto \<Rightarrow> json_api
    \<Rightarrow> editor \<Rightarrow> editor" where
  "handleOpenDocument E W J st =
     (case showOpenFilePicker E of
        Inl error \<Rightarrow> (if error \<noteq> AbortError then toast_error OpenDocumentFailed st else st)
      | Inr file \<Rightarrow>
          (let fileContent = file_text file;
               encryptedData = parseEncryptedFromSave J fileContent
           in
           if truthy encryptedData then
             (case decryptText W encryptedData (JStr getDefaultPassword) of
                Inr decryptedContent \<Rightarrow>
                  toast_success OpenedWithDefaultKey
                    ((setDocumentInfo
                        (\<lambda>d. d\<lparr>filePath := Some (file_name file),
                                fileName := file_name file,
                                fileHandle := Some (picked_handle file),
                                isModified := False,
                                isEncrypted := True,
                                lastSaved := Some (toISOString E (file_lastModified file))\<rparr>)
                        (setDocumentContent decryptedContent st))
                     \<lparr>currentPasswordRef := JStr getDefaultPassword\<rparr>)
              | Inl defaultDecryptError \<Rightarrow>
                  st\<lparr>encryptionDialog :=
                       \<lparr>dlg_isOpen = True,
                        dlg_mode = lit ''decrypt'',
                        dlg_content = [],
                        dlg_encryptedData = encryptedData,
                        dlg_pendingAction =
                          Some (PendingOpen (file_name file) (file_name file)
                                            (file_lastModified file) (picked_handle file))\<rparr>\<rparr>)
           else
             toast_success DocumentOpened
               ((setDocumentInfo
                   (\<lambda>d. d\<lparr>filePath := Some (file_name file),
                           fileName := file_name file,
                           fileHandle := Some (picked_handle file),
                           isModified := False,
                           isEncrypted := False,
                           lastSaved := Some (toISOString E (file_lastModified file))\<rparr>)
                   (setDocumentContent fileContent st))
                \<lparr>currentPasswordRef := JNull\<rparr>)))"

text \<open>
  \<open>handleSaveDocument\<close> is a \<open>useCallback\<close> of the page with the dependency
  \<open>currentDocument\<close>: the document it tests, encrypts and writes is the one of the render
  that created the callback, held in its closure. That document is the argument
  \<open>currentDoc\<close> below. The store's actions (\<open>setDocumentInfo\<close>,
  \<open>markDocumentSaved\<close>), the password reference, the toasts and the file writes act
  on the state \<open>st\<close> at the time of the call. For a call made by the render on screen
  (the hot key, the save button, the save dialog) \<open>currentDoc\<close> is the store's
  document; the auto-save timer calls the callback of an earlier render (see
  \<open>handleContentChange\<close>).

  A parameter with a default value takes it when the argument is \<open>undefined\<close>:
  the signature is \<open>(saveMode = null, password = null, isAutoSave = false)\<close>.

  \<open>encrypt_for_save\<close> is the block "by save mode": the content to write, the file
  extension and the encryption flag, or the error thrown by \<open>encryptText\<close>; the password
  reference is set once encryption has succeeded. \<open>save_catch\<close> is the \<open>catch\<close> block
  and \<open>save_done\<close> the last statements. A file path that is \<open>null\<close> or empty means
  "save as".
\<close>

definition default_parameter :: "js_value \<Rightarrow> js_value \<Rightarrow> js_value" where
  "default_parameter initializer argument =
     (if argument = JUndefined then initializer else argument)"

definition encrypt_for_save :: "editor_env \<Rightarrow> ('pk, 'key) subtle_crypto \<Rightarrow> json_api
    \<Rightarrow> document \<Rightarrow> editor \<Rightarrow> js_value \<Rightarrow> js_value
    \<Rightarrow> (js_error + js_string \<times> js_string \<times> bool) \<times> editor" where
  "encrypt_for_save E W J currentDoc st saveMode password =
     (if saveMode = JStr (lit ''default'') \<or> saveMode = JStr (lit ''custom'') then
        (let finalPassword =
               (if saveMode = JStr (lit ''default'') then JStr getDefaultPassword else password)
         in
         (case encryptText W (JStr (content currentDoc)) finalPassword (random_source st) of
            (Inl error, rng) \<Rightarrow> (Inl error, st\<lparr>random_source := rng\<rparr>)
          | (Inr encryptedData, rng) \<Rightarrow>
              (Inr (formatEncryptedForSave J (toISOString E (new_Date E)) encryptedData,
                    lit ''.enc.md'', True),
               st\<lparr>random_source := rng, currentPasswordRef := finalPassword\<rparr>)))
      else (Inr (content currentDoc, lit ''.md'', False), st))"

definition save_catch :: "js_error \<Rightarrow> editor \<Rightarrow> editor" where
  "save_catch error st =
     (if error \<noteq> AbortError then toast_error SaveDocumentFailed st else st)"

definition save_done :: "editor_env \<Rightarrow> js_value \<Rightarrow> editor \<Rightarrow> editor" where
  "save_done E isAutoSave st =
     (let st = markDocumentSaved E st in
      if \<not> truthy isAutoSave then toast_success DocumentSaved st else st)"

definition handleSaveDocument :: "editor_env \<Rightarrow> ('pk, 'key) subtle_crypto \<Rightarrow> json_api
    \<Rightarrow> document \<Rightarrow> editor \<Rightarrow> js_value \<Rightarrow> js_value \<Rightarrow> js_value \<Rightarrow> editor" where
  "handleSaveDocument E W J currentDoc st saveMode_argument password_argument
       isAutoSave_argument =
     (let saveMode = default_parameter JNull saveMode_argument;
          password = default_parameter JNull password_argument;
          isAutoSave = default_parameter (JBool False) isAutoSave_argument
      in
      if trim (content currentDoc) = [] then toast_error DocumentIsEmpty st
      else if saveMode = JNull \<or> saveMode = JUndefined then st\<lparr>showSaveDialog := True\<rparr>
      else
        (case encrypt_for_save E W J currentDoc st saveMode password of
           (Inl error, st1) \<Rightarrow> save_catch error st1
         | (Inr (contentToSave, fileExtension, encrypted), st1) \<Rightarrow>
             (if (case filePath currentDoc of None \<Rightarrow> True | Some path \<Rightarrow> path = [])
              then
                (let suggestedName =
                       (if fileName currentDoc \<noteq> []
                        then replace_extension fileExtension (fileName currentDoc)
                        else lit ''untitled'' @ fileExtension)
                 in
                 (case showSaveFilePicker E suggestedName encrypted of
                    Inl error \<Rightarrow> save_catch error st1
                  | Inr handle \<Rightarrow>
                      (case write_file E handle contentToSave of
                         Some error \<Rightarrow> save_catch error st1
                       | None \<Rightarrow>
                           save_done E isAutoSave
                             (setDocumentInfo
                                (\<lambda>d. d\<lparr>filePath := Some (handle_name handle),
                                        fileName := handle_name handle,
                                        fileHandle := Some handle,
                                        isEncrypted := encrypted\<rparr>)
                                (st1\<lparr>disk := disk st1 @ [(handle, contentToSave)]\<rparr>)))))
              else
                (case fileHandle currentDoc of
                   Some handle \<Rightarrow>
                     (case write_file E handle contentToSave of
                        Some error \<Rightarrow> save_catch error st1
                      | None \<Rightarrow>
                          save_done E isAutoSave
                            (st1\<lparr>disk := disk st1 @ [(handle, contentToSave)]\<rparr>))
                 | None \<Rightarrow> toast_error CannotOverwrite st1))))"

text \<open>
  \<open>handleContentChange\<close> is a callback too, re-created when the content, the file path
  or the encryption flag of the document change: the one the editor calls on an edit
  belongs to the render before that edit, and so does the \<open>handleSaveDocument\<close> it names.
  It stores the new content and, when auto-save is on and the document it captured has a
  file path, replaces the auto-save timer. The result gives the new state and the timer
  set (\<open>None\<close>: the timer is left as it was), a timer being represented by the document
  its callback captured. \<open>autoSave_timeout\<close> is the timer's callback, run 60 seconds
  later on the state of that moment: it reads the encryption flag from the captured
  document and the password from the reference.
\<close>

definition autoSave_timeout :: "editor_env \<Rightarrow> ('pk, 'key) subtle_crypto \<Rightarrow> json_api
    \<Rightarrow> document \<Rightarrow> editor \<Rightarrow> editor" where
  "autoSave_timeout E W J currentDoc st =
     (if isEncrypted currentDoc \<and> truthy (currentPasswordRef st)
      then handleSaveDocument E W J currentDoc st (JStr (lit ''custom''))
             (currentPasswordRef st) (JBool True)
      else handleSaveDocument E W J currentDoc st (JStr (lit ''normal'')) JNull (JBool True))"

definition handleContentChange :: "bool \<Rightarrow> document \<Rightarrow> js_string \<Rightarrow> editor
    \<Rightarrow> editor \<times> document option" where
  "handleContentChange auto_save currentDoc newContent st =
     (setDocumentContent newContent st,
      if auto_save \<and> (case filePath currentDoc of None \<Rightarrow> False | Some path \<Rightarrow> path \<noteq> [])
      then Some currentDoc else None)"

section \<open>Client: components/SaveDialog\<close>

text \<open>
  In the sources the dialog follows the image uploader in
  \<open>client/src/components/ImageUploader.jsx\<close>.
\<close>

record save_dialog =
  sd_saveMode :: js_string
  sd_password :: js_string
  sd_confirmPassword :: js_string

text \<open>
  \<open>handleSave\<close> of the dialog: in custom mode the password is validated first; then
  \<open>onSave\<close> (the page's \<open>handleSaveDocument\<close> with \<open>isAutoSave = false\<close>) runs,
  the dialog's state is reset and the dialog is closed. \<open>currentDoc\<close> is the document
  captured by the \<open>onSave\<close> the dialog was given. The dialog's "processing" flag,
  which only drives the display, is left out.
\<close>

definition SaveDialog_handleSave :: "editor_env \<Rightarrow> ('pk, 'key) subtle_crypto \<Rightarrow> json_api
    \<Rightarrow> document \<Rightarrow> save_dialog \<Rightarrow> editor \<Rightarrow> save_dialog \<times> editor" where
  "SaveDialog_handleSave E W J currentDoc dlg st =
     (if sd_saveMode dlg = lit ''custom'' \<and> sd_password dlg = []
        then (dlg, toast_error PleaseEnterPassword st)
      else if sd_saveMode dlg = lit ''custom'' \<and> sd_password dlg \<noteq> sd_confirmPassword dlg
        then (dlg, toast_error PasswordsDiffer st)
      else if sd_saveMode dlg = lit ''custom'' \<and> length (sd_password dlg) < 6
        then (dlg, toast_error PasswordTooShort st)
      else
        (\<lparr>sd_saveMode = lit ''normal'', sd_password = [], sd_confirmPassword = []\<rparr>,
         (handleSaveDocument E W J currentDoc st (JStr (sd_saveMode dlg))
            (JStr (sd_password dlg)) (JBool False))
           \<lparr>showSaveDialog := False\<rparr>))"

section \<open>Server: routes/documents\<close>

text \<open>
  The documents router (the second module of \<open>unnamed/part_001\<close> in the sources).
  Node's \<open>crypto\<close>, as far as the server's \<open>encryptText\<close> calls it.
  \<open>createCipher_run algorithm password text\<close> is what
  \<open>crypto.createCipher(algorithm, password)\<close> gives for \<open>text\<close>: the hexadecimal
  output of \<open>update(text, 'utf8', 'hex')\<close> followed by \<open>final('hex')\<close>, and the
  value of \<open>cipher.getAuthTag ? cipher.getAuthTag().toString('hex') : null\<close>; or the
  error thrown. The call has no other argument: \<open>createCipher\<close> takes no
  initialisation vector. \<open>env_ENCRYPTION_KEY\<close> is \<open>process.env.ENCRYPTION_KEY\<close>.
\<close>

record node_crypto =
  createCipher_run :: "js_string \<Rightarrow> js_value \<Rightarrow> js_value \<Rightarrow> js_error + js_string \<times> js_value"
  env_ENCRYPTION_KEY :: js_value

definition ENCRYPTION_ALGORITHM :: js_string where
  "ENCRYPTION_ALGORITHM = lit ''aes-256-gcm''"

definition ENCRYPTION_KEY :: "node_crypto \<Rightarrow> js_value" where
  "ENCRYPTION_KEY N =
     (if truthy (env_ENCRYPTION_KEY N) then env_ENCRYPTION_KEY N
      else JStr (lit ''textx_default_encryption_key_32_chars''))"

text \<open>\<open>iv.toString('hex')\<close>: two lowercase hexadecimal digits for every byte.\<close>

definition hex_digit :: "nat \<Rightarrow> code_unit" where
  "hex_digit n = of_nat (if n < 10 then 0x30 + n else 0x61 + (n - 10))"

definition hex_string :: "bytes \<Rightarrow> js_string" where
  "hex_string buf = concat (map (\<lambda>b. [hex_digit (unat b div 16), hex_digit (unat b mod 16)]) buf)"

text \<open>
  The server's \<open>encryptText(text, password = ENCRYPTION_KEY)\<close>: the default applies
  to an \<open>undefined\<close> password. It returns its result and the rest of the random stream.
\<close>

definition server_encryptText :: "node_crypto \<Rightarrow> js_value \<Rightarrow> js_value \<Rightarrow> entropy
    \<Rightarrow> (js_error + js_value) \<times> entropy" where
  "server_encryptText N text_arg password_arg rng =
     (let password = (if password_arg = JUndefined then ENCRYPTION_KEY N else password_arg);
          (iv, rng1) = getRandomValues 16 rng
      in
      (and_then (createCipher_run N ENCRYPTION_ALGORITHM password text_arg) (\<lambda>(encrypted, authTag).
         Inr (JObj [(lit ''encrypted'', JStr encrypted),
                    (lit ''iv'', JStr (hex_string iv)),
                    (lit ''authTag'', authTag)])),
       rng1))"

text \<open>
  The route \<open>POST /api/documents/save\<close>. The file system and the database are the
  environment: \<open>srv_mkdir\<close> creates the directory of the path, \<open>srv_writeFile\<close>
  writes the file, and \<open>srv_record_recent\<close> is the bookkeeping after the write
  (\<open>fs.stat\<close> and the insertion into \<open>recent_documents\<close>); each may fail. The file
  name and size of the success response are left out.
\<close>

record save_request =
  req_filePath :: js_value
  req_content :: js_value
  req_encrypted :: js_value
  req_password :: js_value

datatype server_message = PathAndContentRequired | PasswordRequiredToEncrypt | SaveFailedOnServer

datatype save_response =
    Response400 server_message
  | Response500 server_message js_error
  | Response200 js_value js_value

record server_env =
  srv_mkdir :: "js_value \<Rightarrow> js_error option"
  srv_writeFile :: "js_value \<Rightarrow> js_value \<Rightarrow> js_error option"
  srv_record_recent :: "js_value \<Rightarrow> js_value \<Rightarrow> js_value \<Rightarrow> js_error option"

record server =
  srv_files :: "(js_value \<times> js_value) list"
  srv_random :: entropy

definition save_route :: "server_env \<Rightarrow> node_crypto \<Rightarrow> json_api \<Rightarrow> save_request \<Rightarrow> server
    \<Rightarrow> save_response \<times> server" where
  "save_route E N J req srv =
     (let filePath_arg = req_filePath req;
          content_arg = req_content req;
          encrypted = req_encrypted req;
          password = req_password req
      in
      if \<not> truthy filePath_arg \<or> content_arg = JUndefined
        then (Response400 PathAndContentRequired, srv)
      else if truthy encrypted \<and> \<not> truthy password
        then (Response400 PasswordRequiredToEncrypt, srv)
      else
        (case
           (if truthy encrypted then
              (case server_encryptText N content_arg password (srv_random srv) of
                 (Inl error, rng) \<Rightarrow> (Inl error, srv\<lparr>srv_random := rng\<rparr>)
               | (Inr encryptedData, rng) \<Rightarrow>
                   (Inr (JStr (JSON_stringify J encryptedData)), srv\<lparr>srv_random := rng\<rparr>))
            else (Inr content_arg, srv))
         of
           (Inl error, srv1) \<Rightarrow> (Response500 SaveFailedOnServer error, srv1)
         | (Inr finalContent, srv1) \<Rightarrow>
             (case srv_mkdir E filePath_arg of
                Some error \<Rightarrow> (Response500 SaveFailedOnServer error, srv1)
              | None \<Rightarrow>
                  (case srv_writeFile E filePath_arg finalContent of
                     Some error \<Rightarrow> (Response500 SaveFailedOnServer error, srv1)
                   | None \<Rightarrow>
                       (let srv2 = srv1\<lparr>srv_files := srv_files srv1 @ [(filePath_arg, finalContent)]\<rparr>
                        in
                        (case srv_record_recent E filePath_arg content_arg encrypted of
                           Some error \<Rightarrow> (Response500 SaveFailedOnServer error, srv2)
                         | None \<Rightarrow>
                             (Response200 filePath_arg
                                (if truthy encrypted then encrypted else JBool False),
                              srv2)))))))"

section \<open>A stand-in platform for evaluation\<close>

text \<open>
  To evaluate the model on concrete inputs the platform's functions need values. The
  stand-ins below are not the real primitives: \<open>sample_crypto\<close> derives the "key" by
  appending the salt to the password bytes and "encrypts" by prefixing the data with key
  and initialisation vector, so that decryption with another key or vector fails, as
  authenticated decryption does. \<open>sample_stringify\<close> writes an object whose values are
  strings that need no escaping as \<open>JSON.stringify(v, null, 2)\<close> writes it, and
  \<open>sample_json\<close> parses exactly the texts of \<open>sample_objects\<close>.
  \<open>sample_envelope\<close> is what the stand-in gives for the text \<open>hello\<close> under
  the default password, with salt bytes 0 to 15 and vector bytes 0 to 11.
\<close>

definition sample_crypto :: "(bytes, bytes) subtle_crypto" where
  "sample_crypto =
     \<lparr>importKey = (\<lambda>raw. Inr raw),
      deriveKey_PBKDF2 = (\<lambda>salt iterations pk. Inr (pk @ salt)),
      encrypt_AES_GCM = (\<lambda>iv key data. Inr (key @ iv @ data)),
      decrypt_AES_GCM = (\<lambda>iv key data.
         if take (length key + length iv) data = key @ iv
         then Inr (drop (length key + length iv) data)
         else Inl OperationError)\<rparr>"

definition sample_entropy :: entropy where
  "sample_entropy = (\<lambda>i. of_nat (7 * i + 3))"

fun sample_member :: "js_string \<times> js_value \<Rightarrow> js_string" where
  "sample_member (k, JStr s) = lit ''  \"'' @ k @ lit ''\": \"'' @ s @ lit ''\"''"
| "sample_member (k, v) = []"

fun sample_members :: "(js_string \<times> js_value) list \<Rightarrow> js_string" where
  "sample_members [] = []"
| "sample_members [m] = sample_member m @ lit ''\<newline>''"
| "sample_members (m # ms) = sample_member m @ lit '',\<newline>'' @ sample_members ms"

fun sample_stringify :: "js_value \<Rightarrow> js_string" where
  "sample_stringify (JObj []) = lit ''{}''"
| "sample_stringify (JObj kvs) = lit ''{\<newline>'' @ sample_members kvs @ lit ''}''"
| "sample_stringify v = []"

definition sample_envelope :: "js_string \<Rightarrow> js_string \<Rightarrow> js_value" where
  "sample_envelope algorithm version =
     JObj [(lit ''encrypted'', JStr (lit ''dGV4dHhfZGVmYXVsdF9rZXlfMjAyNAABAgMEBQYHCAkKCwwNDg8AAQIDBAUGBwgJCgtoZWxsbw=='')),
           (lit ''salt'', JStr (lit ''AAECAwQFBgcICQoLDA0ODw=='')),
           (lit ''iv'', JStr (lit ''AAECAwQFBgcICQoL'')),
           (lit ''algorithm'', JStr algorithm),
           (lit ''version'', JStr version)]"

definition sample_time :: js_string where
  "sample_time = lit ''2024-01-01T00:00:00.000Z''"

definition sample_saved :: js_value where
  "sample_saved =
     JObj (own_props (sample_envelope (lit ''AES-256-GCM'') (lit ''1.0''))
           @ [(lit ''createdAt'', JStr sample_time)])"

definition sample_objects :: "js_value list" where
  "sample_objects =
     [sample_envelope (lit ''AES-256-GCM'') (lit ''1.0''),
      sample_envelope (lit ''AES-256-GCM'') (lit ''9.9''),
      sample_envelope (lit ''ROT13'') (lit ''1.0''),
      sample_saved]"

definition sample_json :: json_api where
  "sample_json =
     \<lparr>JSON_parse = (\<lambda>t. case find (\<lambda>v. sample_stringify v = t) sample_objects of
                           Some v \<Rightarrow> Inr v
                         | None \<Rightarrow> Inl SyntaxError),
      JSON_stringify = sample_stringify\<rparr>"

definition sample_handle :: file_handle where
  "sample_handle = \<lparr>handle_name = lit ''notes.enc.md'', handle_id = 1\<rparr>"

text \<open>
  \<open>sample_env txt\<close>: the user opens a file with the text \<open>txt\<close>, the save picker
  returns \<open>sample_handle\<close>, and writing succeeds. \<open>sample_editor c\<close> is the page's
  initial state with the content \<open>c\<close> typed in.
\<close>

definition sample_env :: "js_string \<Rightarrow> editor_env" where
  "sample_env txt =
     \<lparr>showOpenFilePicker =
        Inr \<lparr>file_name = lit ''notes.enc.md'', file_text = txt, file_lastModified = 0,
             picked_handle = sample_handle\<rparr>,
      showSaveFilePicker = (\<lambda>suggestedName encrypted. Inr sample_handle),
      write_file = (\<lambda>handle data. None),
      toISOString = (\<lambda>t. sample_time),
      new_Date = 0\<rparr>"

definition sample_editor :: "js_string \<Rightarrow> editor" where
  "sample_editor c =
     \<lparr>currentDocument =
        \<lparr>content = c, filePath = None, fileName = lit ''untitled.md'', fileHandle = None,
         isModified = False, isEncrypted = False, lastSaved = None\<rparr>,
      currentPasswordRef = JNull,
      encryptionDialog =
        \<lparr>dlg_isOpen = False, dlg_mode = lit ''decrypt'', dlg_content = [],
         dlg_encryptedData = JNull, dlg_pendingAction = None\<rparr>,
      showSaveDialog = False,
      toasts = [],
      disk = [],
      random_source = sample_entropy\<rparr>"

definition sample_node :: node_crypto where
  "sample_node =
     \<lparr>createCipher_run = (\<lambda>algorithm password data.
         and_then (ToString password) (\<lambda>p.
         and_then (ToString data) (\<lambda>d. Inr (hex_string (TextEncoder_encode (p @ d)), JNull)))),
      env_ENCRYPTION_KEY = JUndefined\<rparr>"

definition sample_server_env :: server_env where
  "sample_server_env =
     \<lparr>srv_mkdir = (\<lambda>p. None), srv_writeFile = (\<lambda>p d. None),
      srv_record_recent = (\<lambda>p c e. None)\<rparr>"

definition sample_server :: server where
  "sample_server = \<lparr>srv_files = [], srv_random = sample_entropy\<rparr>"

section \<open>Notions used in the statements\<close>

text \<open>
  \<open>encrypt_then_decrypt W P K rng\<close> is \<open>decryptText(encryptText(P, K), K)\<close>:
  \<open>None\<close> when \<open>encryptText\<close> throws, and otherwise what \<open>decryptText\<close> gives
  for the envelope.
\<close>

definition encrypt_then_decrypt :: "('pk, 'key) subtle_crypto \<Rightarrow> js_string \<Rightarrow> js_string
    \<Rightarrow> entropy \<Rightarrow> (js_error + js_string) option" where
  "encrypt_then_decrypt W P K rng =
     (case fst (encryptText W (JStr P) (JStr K) rng) of
        Inl e \<Rightarrow> None
      | Inr envelope \<Rightarrow> Some (decryptText W envelope (JStr K)))"

text \<open>
  An envelope, in the words of the open workflow: an object whose \<open>encrypted\<close>,
  \<open>salt\<close> and \<open>iv\<close> fields are present and truthy.
\<close>

definition has_truthy :: "(js_string \<times> js_value) list \<Rightarrow> js_string \<Rightarrow> bool" where
  "has_truthy kvs k = (case map_of kvs k of Some v \<Rightarrow> truthy v | None \<Rightarrow> False)"

definition is_envelope :: "js_value \<Rightarrow> bool" where
  "is_envelope v =
     (case v of
        JObj kvs \<Rightarrow> has_truthy kvs (lit ''encrypted'') \<and> has_truthy kvs (lit ''salt'')
                    \<and> has_truthy kvs (lit ''iv'')
      | _ \<Rightarrow> False)"

section \<open>Properties of the text encoding\<close>

text \<open>
  The UTF-8 decoder reads back every scalar value from its encoding, whatever follows.
\<close>

lemma lead_mod:
  fixes a :: nat
  shows "a < 32 \<Longrightarrow> (0xC0 + a) mod 0x20 = a"
    and "a < 16 \<Longrightarrow> (0xE0 + a) mod 0x10 = a"
    and "a < 8 \<Longrightarrow> (0xF0 + a) mod 8 = a"
  by (simp_all add: mod_add_eq[symmetric])

lemma cont_mod:
  fixes b :: nat
  shows "b < 64 \<Longrightarrow> (0x80 + b) mod 0x40 = b"
  by (simp add: mod_add_eq[symmetric])

lemma lead_step:
  assumes "utf8_lead x = ([], st)"
  shows "utf8_decoder utf8_init (x # rest) = utf8_decoder st rest"
  using assms by (simp add: utf8_init_def)

lemma cont_step:
  assumes "b < 64" "lo \<le> 0x80 + b" "0x80 + b \<le> hi" "n \<noteq> 0"
  shows "utf8_decoder (Utf8State v k n lo hi) ((0x80 + b) # rest) =
     (if k + 1 \<noteq> n then utf8_decoder (Utf8State (v * 0x40 + b) (k + 1) n 0x80 0xBF) rest
      else (v * 0x40 + b) # utf8_decoder utf8_init rest)"
  using assms by (simp add: cont_mod Let_def)

lemma cont_step_plain:
  assumes "b < 64" "n \<noteq> 0"
  shows "utf8_decoder (Utf8State v k n 0x80 0xBF) ((0x80 + b) # rest) =
     (if k + 1 \<noteq> n then utf8_decoder (Utf8State (v * 0x40 + b) (k + 1) n 0x80 0xBF) rest
      else (v * 0x40 + b) # utf8_decoder utf8_init rest)"
  using assms by (intro cont_step) simp_all

lemma decode_two_bytes:
  assumes "0x80 \<le> cp" "cp < 0x800"
  shows "utf8_decoder utf8_init (utf8_encode_scalar cp @ bs) = cp # utf8_decoder utf8_init bs"
proof -
  define a where "a = cp div 0x40"
  define b where "b = cp mod 0x40"
  have cp: "cp = a * 0x40 + b" by (simp add: a_def b_def)
  have b: "b < 64" by (simp add: b_def)
  have a: "2 \<le> a" "a < 32" using assms cp b by linarith+
  have l: "utf8_lead (0xC0 + a) = ([], Utf8State a 0 1 0x80 0xBF)"
    using a by (simp add: utf8_lead_def lead_mod)
  have e: "utf8_encode_scalar cp = [0xC0 + a, 0x80 + b]"
    using assms by (simp add: utf8_encode_scalar_def a_def b_def)
  show ?thesis
    unfolding e using b by (simp add: l utf8_init_def cp[symmetric] cont_mod)
qed

lemma decode_three_bytes:
  assumes "0x800 \<le> cp" "cp < 0x10000" "\<not> (0xD800 \<le> cp \<and> cp \<le> 0xDFFF)"
  shows "utf8_decoder utf8_init (utf8_encode_scalar cp @ bs) = cp # utf8_decoder utf8_init bs"
proof -
  define q where "q = cp div 0x40"
  define a where "a = q div 0x40"
  define b where "b = q mod 0x40"
  define c where "c = cp mod 0x40"
  define lo :: nat where "lo = (if a = 0 then 0xA0 else 0x80)"
  define hi :: nat where "hi = (if a = 13 then 0x9F else 0xBF)"
  have q: "cp = q * 0x40 + c" by (simp add: q_def c_def)
  have qa: "q = a * 0x40 + b" by (simp add: a_def b_def)
  have b: "b < 64" by (simp add: b_def)
  have c: "c < 64" by (simp add: c_def)
  have a: "a < 16" using assms q qa b c by linarith
  have a0: "a = 0 \<Longrightarrow> 32 \<le> b" using assms q qa b c by linarith
  have aD: "a = 13 \<Longrightarrow> b < 32" using assms q qa b c by linarith
  have lo: "lo \<le> 0x80 + b" using a0 by (auto simp add: lo_def)
  have hi: "0x80 + b \<le> hi" using aD b by (auto simp add: hi_def)
  have l: "utf8_lead (0xE0 + a) = ([], Utf8State a 0 2 lo hi)"
    using a by (simp add: utf8_lead_def lead_mod lo_def hi_def)
  have "cp div 0x1000 = a" unfolding a_def q_def by (simp add: div_mult2_eq[symmetric])
  then have e: "utf8_encode_scalar cp = [0xE0 + a, 0x80 + b, 0x80 + c]"
    using assms by (simp add: utf8_encode_scalar_def b_def c_def q_def)
  have "utf8_decoder utf8_init ([0xE0 + a, 0x80 + b, 0x80 + c] @ bs)
      = utf8_decoder (Utf8State a 0 2 lo hi) ((0x80 + b) # (0x80 + c) # bs)"
    by (simp add: lead_step[OF l] del: utf8_decoder.simps)
  also have "\<dots> = utf8_decoder (Utf8State q 1 2 0x80 0xBF) ((0x80 + c) # bs)"
    by (simp add: cont_step[OF b lo hi] qa del: utf8_decoder.simps)
  also have "\<dots> = cp # utf8_decoder utf8_init bs"
    by (simp add: cont_step_plain[OF c] q del: utf8_decoder.simps)
  finally show ?thesis by (simp only: e)
qed

lemma decode_four_bytes:
  assumes "0x10000 \<le> cp" "cp < 0x110000"
  shows "utf8_decoder utf8_init (utf8_encode_scalar cp @ bs) = cp # utf8_decoder utf8_init bs"
proof -
  define q where "q = cp div 0x40"
  define r where "r = q div 0x40"
  define a where "a = r div 0x40"
  define b where "b = r mod 0x40"
  define c where "c = q mod 0x40"
  define d where "d = cp mod 0x40"
  define lo :: nat where "lo = (if a = 0 then 0x90 else 0x80)"
  define hi :: nat where "hi = (if a = 4 then 0x8F else 0xBF)"
  have q: "cp = q * 0x40 + d" by (simp add: q_def d_def)
  have qr: "q = r * 0x40 + c" by (simp add: r_def c_def)
  have ra: "r = a * 0x40 + b" by (simp add: a_def b_def)
  have b: "b < 64" by (simp add: b_def)
  have c: "c < 64" by (simp add: c_def)
  have d: "d < 64" by (simp add: d_def)
  have a: "a < 5" using assms q qr ra b c d by linarith
  have a0: "a = 0 \<Longrightarrow> 16 \<le> b" using assms q qr ra b c d by linarith
  have a4: "a = 4 \<Longrightarrow> b < 16" using assms q qr ra b c d by linarith
  have lo: "lo \<le> 0x80 + b" using a0 by (auto simp add: lo_def)
  have hi: "0x80 + b \<le> hi" using a4 b by (auto simp add: hi_def)
  have l: "utf8_lead (0xF0 + a) = ([], Utf8State a 0 3 lo hi)"
    using a by (simp add: utf8_lead_def lead_mod lo_def hi_def)
  have "cp div 0x1000 = r" unfolding r_def q_def by (simp add: div_mult2_eq[symmetric])
  moreover have "cp div 0x40000 = a" unfolding a_def r_def q_def by (simp add: div_mult2_eq[symmetric])
  ultimately have e: "utf8_encode_scalar cp = [0xF0 + a, 0x80 + b, 0x80 + c, 0x80 + d]"
    using assms by (simp add: utf8_encode_scalar_def b_def c_def d_def q_def)
  have "utf8_decoder utf8_init ([0xF0 + a, 0x80 + b, 0x80 + c, 0x80 + d] @ bs)
      = utf8_decoder (Utf8State a 0 3 lo hi) ((0x80 + b) # (0x80 + c) # (0x80 + d) # bs)"
    by (simp add: lead_step[OF l] del: utf8_decoder.simps)
  also have "\<dots> = utf8_decoder (Utf8State r 1 3 0x80 0xBF) ((0x80 + c) # (0x80 + d) # bs)"
    by (simp add: cont_step[OF b lo hi] ra del: utf8_decoder.simps)
  also have "\<dots> = utf8_decoder (Utf8State q 2 3 0x80 0xBF) ((0x80 + d) # bs)"
    by (simp add: cont_step_plain[OF c] qr numeral_2_eq_2 del: utf8_decoder.simps)
  also have "\<dots> = cp # utf8_decoder utf8_init bs"
    by (simp add: cont_step_plain[OF d] q del: utf8_decoder.simps)
  finally show ?thesis by (simp only: e)
qed


lemma decode_one_byte:
  assumes "cp < 0x80"
  shows "utf8_decoder utf8_init (utf8_encode_scalar cp @ bs) = cp # utf8_decoder utf8_init bs"
  using assms by (simp add: utf8_encode_scalar_def utf8_init_def utf8_lead_def)

lemma utf8_decoder_encode_scalar:
  assumes "is_scalar cp"
  shows "utf8_decoder utf8_init (utf8_encode_scalar cp @ bs) = cp # utf8_decoder utf8_init bs"
proof -
  consider "cp < 0x80" | "0x80 \<le> cp" "cp < 0x800" | "0x800 \<le> cp" "cp < 0x10000"
    | "0x10000 \<le> cp" by linarith
  then show ?thesis using assms
    by cases (simp_all add: decode_one_byte decode_two_bytes decode_three_bytes decode_four_bytes is_scalar_def)
qed

lemma utf8_decoder_encode:
  assumes "list_all is_scalar cps"
  shows "utf8_decoder utf8_init (concat (map utf8_encode_scalar cps)) = cps"
  using assms
proof (induction cps)
  case Nil
  show ?case by (simp add: utf8_init_def)
next
  case (Cons cp cps)
  then show ?case by (simp add: utf8_decoder_encode_scalar del: utf8_decoder.simps)
qed

lemma utf8_encode_scalar_bytes:
  assumes "cp < 0x110000"
  shows "list_all (\<lambda>b. b < 256) (utf8_encode_scalar cp)"
proof -
  have m: "x mod 0x40 < (64::nat)" for x by simp
  have 1: "cp < 0x800 \<Longrightarrow> cp div 0x40 < 32" by (simp add: less_mult_imp_div_less)
  have 2: "cp < 0x10000 \<Longrightarrow> cp div 0x1000 < 16" by (simp add: less_mult_imp_div_less)
  have 3: "cp div 0x40000 < 5" using assms by (simp add: less_mult_imp_div_less)
  have 4: "0x80 + x mod 0x40 < (256::nat)" for x using m[of x] by linarith
  show ?thesis
    using 1 2 3 by (auto simp add: utf8_encode_scalar_def 4)
qed

lemma unat_of_nat_byte: "b < 256 \<Longrightarrow> unat (of_nat b :: byte) = b"
  by (simp add: unat_of_nat)

lemma map_unat_of_nat_bytes:
  "list_all (\<lambda>b. b < 256) xs \<Longrightarrow> map unat (map of_nat xs :: bytes) = xs"
  by (induction xs) (simp_all add: unat_of_nat_byte)

lemma encode_bytes_in_range:
  "list_all is_scalar cps \<Longrightarrow> list_all (\<lambda>b. b < 256) (concat (map utf8_encode_scalar cps))"
  by (induction cps) (simp_all add: utf8_encode_scalar_bytes is_scalar_def)

lemma unit_scalar:
  "\<not> is_high_surrogate c \<Longrightarrow> \<not> is_low_surrogate c \<Longrightarrow> is_scalar (unat c)"
proof -
  assume h: "\<not> is_high_surrogate c" "\<not> is_low_surrogate c"
  have "unat c < 2 ^ 16" using unsigned_less[of c] by simp
  then have "unat c < 0x110000" by simp
  with h show ?thesis
    by (auto simp add: is_scalar_def is_high_surrogate_def is_low_surrogate_def word_le_nat_alt)
qed

lemma pair_scalar:
  assumes "is_high_surrogate c" "is_low_surrogate d"
  shows "is_scalar (0x10000 + (unat c - 0xD800) * 0x400 + (unat d - 0xDC00))"
proof -
  have "0xD800 \<le> unat c" "unat c \<le> 0xDBFF" "0xDC00 \<le> unat d" "unat d \<le> 0xDFFF"
    using assms by (simp_all add: is_high_surrogate_def is_low_surrogate_def word_le_nat_alt)
  then show ?thesis by (simp add: is_scalar_def)
qed

lemma to_scalar_values_scalar: "well_formed s \<Longrightarrow> list_all is_scalar (to_scalar_values s)"
  by (induction s rule: to_scalar_values.induct)
     (auto simp add: unit_scalar pair_scalar split: if_splits)

lemma unit_code_units:
  "\<not> is_high_surrogate c \<Longrightarrow> \<not> is_low_surrogate c \<Longrightarrow> code_units_of (unat c) = [c]"
proof -
  have "unat c < 2 ^ 16" using unsigned_less[of c] by simp
  then show ?thesis by (simp add: code_units_of_def)
qed

lemma pair_code_units:
  assumes "is_high_surrogate c" "is_low_surrogate d"
  shows "code_units_of (0x10000 + (unat c - 0xD800) * 0x400 + (unat d - 0xDC00)) = [c, d]"
proof -
  define x where "x = unat c - 0xD800"
  define y where "y = unat d - 0xDC00"
  have c: "0xD800 \<le> unat c" "unat c \<le> 0xDBFF" and d: "0xDC00 \<le> unat d" "unat d \<le> 0xDFFF"
    using assms by (simp_all add: is_high_surrogate_def is_low_surrogate_def word_le_nat_alt)
  have y: "y < 0x400" using d by (simp add: y_def)
  have "(x * 0x400 + y) div 0x400 = x" "(x * 0x400 + y) mod 0x400 = y" using y by simp_all
  moreover have "of_nat (0xD800 + x) = c" using c by (simp add: x_def)
  moreover have "of_nat (0xDC00 + y) = d" using d by (simp add: y_def)
  ultimately show ?thesis
    unfolding code_units_of_def x_def[symmetric] y_def[symmetric] by simp
qed

lemma from_code_points_to_scalar_values:
  "well_formed s \<Longrightarrow> from_code_points (to_scalar_values s) = s"
  by (induction s rule: to_scalar_values.induct)
     (auto simp add: from_code_points_def unit_code_units pair_code_units split: if_splits)

lemma to_scalar_values_Nil: "to_scalar_values s = [] \<longleftrightarrow> s = []"
  by (cases s rule: to_scalar_values.cases) simp_all

lemma to_scalar_values_hd:
  assumes "s \<noteq> []" "hd s \<noteq> 0xFEFF"
  shows "hd (to_scalar_values s) \<noteq> 0xFEFF"
proof -
  have u: "unat c \<noteq> 0xFEFF" if "c \<noteq> 0xFEFF" for c :: code_unit
  proof
    assume "unat c = 0xFEFF"
    then have "of_nat (unat c) = (of_nat 0xFEFF :: code_unit)" by simp
    then show False using that by simp
  qed
  show ?thesis
    using assms by (cases s rule: to_scalar_values.cases) (auto simp add: u)
qed

lemma text_roundtrip:
  assumes "well_formed P" "P = [] \<or> hd P \<noteq> 0xFEFF"
  shows "TextDecoder_decode (TextEncoder_encode P) = P"
proof -
  let ?cps = "to_scalar_values P"
  have sc: "list_all is_scalar ?cps" using assms(1) by (rule to_scalar_values_scalar)
  have "map unat (TextEncoder_encode P) = concat (map utf8_encode_scalar ?cps)"
    unfolding TextEncoder_encode_def
    by (rule map_unat_of_nat_bytes) (rule encode_bytes_in_range[OF sc])
  then have "utf8_decoder utf8_init (map unat (TextEncoder_encode P)) = ?cps"
    by (simp only: utf8_decoder_encode[OF sc])
  moreover have "(case ?cps of [] \<Rightarrow> [] | cp # r \<Rightarrow> if cp = 0xFEFF then r else ?cps) = ?cps"
    using assms(2) to_scalar_values_hd[of P] to_scalar_values_Nil[of P]
    by (cases ?cps) auto
  ultimately show ?thesis
    by (simp add: TextDecoder_decode_def from_code_points_to_scalar_values assms(1))
qed


section \<open>Properties of base64\<close>

lemma unat_of_nat_unit: "n < 65536 \<Longrightarrow> unat (of_nat n :: code_unit) = n"
  by (simp add: unat_of_nat)

lemma unat_b64_char:
  assumes "n < 64"
  shows "unat (b64_char n) =
     (if n < 26 then 0x41 + n
      else if n < 52 then 0x61 + (n - 26)
      else if n < 62 then 0x30 + (n - 52)
      else if n = 62 then 0x2B else 0x2F)"
  unfolding b64_char_def using assms by (intro unat_of_nat_unit) auto

lemma b64_index_char: "n < 64 \<Longrightarrow> b64_index (b64_char n) = Some n"
proof -
  assume n: "n < 64"
  consider "n < 26" | "26 \<le> n" "n < 52" | "52 \<le> n" "n < 62" | "n = 62" | "n = 63"
    using n by linarith
  then show ?thesis
  proof cases
    case 1 then show ?thesis by (simp add: b64_index_def unat_b64_char[OF n] Let_def)
  next
    case 2 then show ?thesis by (auto simp add: b64_index_def unat_b64_char[OF n] Let_def)
  next
    case 3 then show ?thesis by (auto simp add: b64_index_def unat_b64_char[OF n] Let_def)
  next
    case 4 then show ?thesis using unat_b64_char[of 62] by (simp add: b64_index_def Let_def)
  next
    case 5 then show ?thesis using unat_b64_char[of 63] by (simp add: b64_index_def Let_def)
  qed
qed

lemma b64_char_not_pad: "n < 64 \<Longrightarrow> b64_char n \<noteq> 0x3D"
proof
  assume "n < 64" and "b64_char n = 0x3D"
  then have "b64_index 0x3D = Some n" using b64_index_char[of n] by simp
  then show False by (simp add: b64_index_def)
qed

lemma b64_char_not_whitespace: "n < 64 \<Longrightarrow> \<not> ascii_whitespace (b64_char n)"
proof
  assume n: "n < 64" and "ascii_whitespace (b64_char n)"
  then consider "b64_char n = 0x09" | "b64_char n = 0x0A" | "b64_char n = 0x0C"
    | "b64_char n = 0x0D" | "b64_char n = 0x20"
    by (auto simp add: ascii_whitespace_def)
  then show False
  proof cases
    case 1 then have "b64_index 0x09 = Some n" using b64_index_char[OF n] by simp
    then show False by (simp add: b64_index_def)
  next
    case 2 then have "b64_index 0x0A = Some n" using b64_index_char[OF n] by simp
    then show False by (simp add: b64_index_def)
  next
    case 3 then have "b64_index 0x0C = Some n" using b64_index_char[OF n] by simp
    then show False by (simp add: b64_index_def)
  next
    case 4 then have "b64_index 0x0D = Some n" using b64_index_char[OF n] by simp
    then show False by (simp add: b64_index_def)
  next
    case 5 then have "b64_index 0x20 = Some n" using b64_index_char[OF n] by simp
    then show False by (simp add: b64_index_def)
  qed
qed

lemma sextet_bounds:
  fixes a b c :: nat
  shows "a < 256 \<Longrightarrow> a div 4 < 64"
    and "a mod 4 * 16 < 64"
    and "b < 256 \<Longrightarrow> a mod 4 * 16 + b div 16 < 64"
    and "b mod 16 * 4 < 64"
    and "c < 256 \<Longrightarrow> b mod 16 * 4 + c div 64 < 64"
    and "c mod 64 < 64"
proof -
  have m4: "a mod 4 < 4" and m16: "b mod 16 < 16" by simp_all
  show "a < 256 \<Longrightarrow> a div 4 < 64" by (simp add: less_mult_imp_div_less)
  show "a mod 4 * 16 < 64" using m4 by linarith
  show "b mod 16 * 4 < 64" using m16 by linarith
  show "c mod 64 < 64" by simp
  { assume "b < 256"
    then have "b div 16 < 16" by (simp add: less_mult_imp_div_less)
    then show "a mod 4 * 16 + b div 16 < 64" using m4 by linarith }
  { assume "c < 256"
    then have "c div 64 < 4" by (simp add: less_mult_imp_div_less)
    then show "b mod 16 * 4 + c div 64 < 64" using m16 by linarith }
qed

lemma b64_sextets_bound:
  "list_all (\<lambda>b. b < 256) xs \<Longrightarrow> list_all (\<lambda>s. s < 64) (b64_sextets xs)"
  by (induction xs rule: b64_sextets.induct) (simp_all add: sextet_bounds)

lemma small_div_mod:
  fixes b c :: nat
  shows "b < 256 \<Longrightarrow> b div 16 div 16 = 0"
    and "b < 256 \<Longrightarrow> b div 16 mod 16 = b div 16"
    and "c < 256 \<Longrightarrow> c div 64 div 4 = 0"
    and "c < 256 \<Longrightarrow> c div 64 mod 4 = c div 64"
  by (simp_all add: less_mult_imp_div_less)

lemma b64_octets_sextets:
  "list_all (\<lambda>b. b < 256) xs \<Longrightarrow> b64_octets (b64_sextets xs) = xs"
  by (induction xs rule: b64_sextets.induct) (simp_all add: small_div_mod)

lemma length_b64_sextets:
  "length (b64_sextets xs) =
     4 * (length xs div 3) + (if length xs mod 3 = 0 then 0 else length xs mod 3 + 1)"
proof (induction xs rule: b64_sextets.induct)
  case (4 a b c r)
  have l: "length (a # b # c # r) = length r + 3" by simp
  have s: "length (b64_sextets (a # b # c # r)) = length (b64_sextets r) + 4" by simp
  have d: "(length r + 3) div 3 = length r div 3 + 1" and m: "(length r + 3) mod 3 = length r mod 3"
    by simp_all
  show ?case unfolding l s 4 d m by simp
qed simp_all

lemma length_b64_sextets_cases:
  obtains q where "length xs mod 3 = 0" "length (b64_sextets xs) = 4 * q"
  | q where "length xs mod 3 = 1" "length (b64_sextets xs) = 4 * q + 2"
  | q where "length xs mod 3 = 2" "length (b64_sextets xs) = 4 * q + 3"
proof -
  have "length xs mod 3 < 3" by simp
  then consider "length xs mod 3 = 0" | "length xs mod 3 = 1" | "length xs mod 3 = 2"
    by linarith
  then show thesis
  proof cases
    case 1 then show ?thesis using that(1)[of "length xs div 3"] by (simp add: length_b64_sextets)
  next
    case 2 then show ?thesis using that(2)[of "length xs div 3"] by (simp add: length_b64_sextets)
  next
    case 3 then show ?thesis using that(3)[of "length xs div 3"] by (simp add: length_b64_sextets)
  qed
qed

lemma padded_length:
  "(length (b64_sextets xs) + (3 - length xs mod 3) mod 3) mod 4 = 0"
proof (cases xs rule: length_b64_sextets_cases)
  case (1 q)
  then show ?thesis by simp
next
  case (2 q)
  then have "length (b64_sextets xs) + (3 - length xs mod 3) mod 3 = 4 * (q + 1)" by simp
  then show ?thesis by (simp only: mod_mult_self1_is_0)
next
  case (3 q)
  then have "length (b64_sextets xs) + (3 - length xs mod 3) mod 3 = 4 * (q + 1)" by simp
  then show ?thesis by (simp only: mod_mult_self1_is_0)
qed

lemma length_b64_sextets_mod: "length (b64_sextets xs) mod 4 \<noteq> 1"
proof (cases xs rule: length_b64_sextets_cases)
  case (1 q)
  then show ?thesis by simp
next
  case (2 q)
  have "(4 * q + 2) mod 4 = 2 mod 4" by (rule mod_mult_self4)
  then show ?thesis using 2 by simp
next
  case (3 q)
  have "(4 * q + 3) mod 4 = 3 mod 4" by (rule mod_mult_self4)
  then show ?thesis using 3 by simp
qed

lemma strip_padding_append:
  assumes "(length cs + k) mod 4 = 0" "k \<le> 2" "0x3D \<notin> set cs"
  shows "strip_padding (cs @ replicate k 0x3D) = cs"
proof -
  have l: "cs \<noteq> [] \<Longrightarrow> last cs \<noteq> 0x3D" using assms(3) last_in_set by metis
  consider "k = 0" | "k = 1" | "k = 2" using assms(2) by linarith
  then show ?thesis
  proof cases
    case 1
    then show ?thesis using l by (cases "cs = []") (auto simp add: strip_padding_def)
  next
    case 2
    then have "cs \<noteq> []" using assms(1) by auto
    then show ?thesis using 2 l assms(1) by (simp add: strip_padding_def)
  next
    case 3
    then show ?thesis using assms(1)
      by (simp add: strip_padding_def numeral_2_eq_2 butlast_append)
  qed
qed

lemma those_index_char:
  "list_all (\<lambda>s. s < 64) sx \<Longrightarrow> those (map (b64_index \<circ> b64_char) sx) = Some sx"
  by (induction sx) (simp_all add: b64_index_char)

lemma atob_btoa_chars:
  assumes "list_all (\<lambda>b. b < 256) xs"
  shows "atob (map b64_char (b64_sextets xs) @ replicate ((3 - length xs mod 3) mod 3) 0x3D)
         = Inr (map of_nat xs)"
proof -
  let ?sx = "b64_sextets xs"
  let ?cs = "map b64_char ?sx"
  let ?k = "(3 - length xs mod 3) mod 3"
  have sx: "list_all (\<lambda>s. s < 64) ?sx" using assms by (rule b64_sextets_bound)
  have nopad: "0x3D \<notin> set ?cs"
    using sx by (auto simp add: list_all_iff b64_char_not_pad)
  have nows: "filter (\<lambda>c. \<not> ascii_whitespace c) ?cs = ?cs"
    using sx by (auto simp add: list_all_iff b64_char_not_whitespace filter_id_conv)
  have padws: "filter (\<lambda>c. \<not> ascii_whitespace c) (replicate ?k (0x3D::code_unit)) = replicate ?k 0x3D"
    by (simp add: ascii_whitespace_def filter_id_conv)
  have f: "filter (\<lambda>c. \<not> ascii_whitespace c) (?cs @ replicate ?k 0x3D) = ?cs @ replicate ?k 0x3D"
    by (simp only: filter_append nows padws)
  have k: "?k \<le> 2" by (simp add: Suc_leI less_Suc_eq_le[symmetric] numeral_2_eq_2)
  have s: "strip_padding (?cs @ replicate ?k 0x3D) = ?cs"
    using padded_length[of xs] k nopad by (intro strip_padding_append) simp_all
  have n1: "length ?cs mod 4 \<noteq> 1"
    using length_b64_sextets_mod[of xs] by simp
  show ?thesis
    unfolding atob_def f s Let_def
    using n1 by (simp add: those_index_char[OF sx] b64_octets_sextets[OF assms])
qed

lemma unat_byte_lt: "unat (b :: byte) < 256"
  using unsigned_less[of b] by simp

lemma base64_roundtrip:
  "\<exists>s. arrayBufferToBase64 buf = Inr s \<and> base64ToArrayBuffer (JStr s) = Inr buf"
proof -
  let ?bin = "map ucast buf :: js_string"
  let ?xs = "map unat buf"
  have xs: "list_all (\<lambda>b. b < 256) ?xs" by (simp add: list_all_iff unat_byte_lt)
  have u: "unat (ucast b :: code_unit) = unat b" for b :: byte
    using unat_byte_lt[of b] by (simp add: unsigned_ucast_eq take_bit_nat_eq_self)
  have bin: "map unat ?bin = ?xs" by (simp add: u)
  have len: "length ?bin = length ?xs" by simp
  have small: "\<not> list_ex (\<lambda>c. 0xFF < c) ?bin"
  proof -
    have "\<not> 0xFF < (ucast b :: code_unit)" for b :: byte
      using unat_byte_lt[of b] by (simp add: word_less_nat_alt u)
    then show ?thesis by (simp add: list_ex_iff)
  qed
  let ?s = "map b64_char (b64_sextets ?xs) @ replicate ((3 - length ?xs mod 3) mod 3) 0x3D"
  have enc: "arrayBufferToBase64 buf = Inr ?s"
    unfolding arrayBufferToBase64_def btoa_def using small by (simp only: bin len if_False)
  have "atob ?s = Inr (map of_nat ?xs)" using xs by (rule atob_btoa_chars)
  moreover have "map ucast (map of_nat ?xs :: js_string) = buf"
    by (simp add: ucast_up_ucast_id is_up map_idI)
  ultimately have "base64ToArrayBuffer (JStr ?s) = Inr buf"
    by (simp add: base64ToArrayBuffer_def and_then_def)
  with enc show ?thesis by blast
qed

section \<open>Password strength\<close>

lemma score_check_rule: "score (check_rule c m r) = score r + of_bool c"
  by (simp add: check_rule_def)

text \<open>
  C8. For every password string, the strength score is the sum of six one-point bonuses
  (length at least 8, an uppercase letter, a lowercase letter, a digit, a
  non-alphanumeric symbol, length at least 12), so it lies between 0 and 6, and
  \<open>isValid\<close> holds exactly when the score is at least 3.
\<close>

theorem C8_strength_score:
  "score (validatePasswordStrength password) =
       of_bool (8 \<le> length password)
     + of_bool (regex_test upper_AZ password)
     + of_bool (regex_test lower_az password)
     + of_bool (regex_test digit_09 password)
     + of_bool (regex_test not_alnum password)
     + of_bool (12 \<le> length password)
   \<and> score (validatePasswordStrength password) \<le> 6
   \<and> isValid (validatePasswordStrength password)
       = (3 \<le> score (validatePasswordStrength password))"
proof (cases "password = []")
  case True
  then show ?thesis
    by (simp add: validatePasswordStrength_def regex_test_def)
next
  case False
  then show ?thesis
    by (simp add: validatePasswordStrength_def Let_def score_check_rule of_bool_def)
qed

section \<open>Encryption and decryption\<close>

lemma and_then_Inr: "and_then m f = Inr y \<longleftrightarrow> (\<exists>x. m = Inr x \<and> f x = Inr y)"
  by (cases m) (simp_all add: and_then_def)

lemma and_then_simps [simp]:
  "and_then (Inr x) f = f x"
  "and_then (Inl e) f = Inl e"
  by (simp_all add: and_then_def)

lemma base64_decode_encoded:
  assumes "arrayBufferToBase64 buf = Inr s"
  shows "base64ToArrayBuffer (JStr s) = Inr buf"
  using base64_roundtrip[of buf] assms by auto

lemma envelope_keys_distinct:
  "lit ''encrypted'' \<noteq> lit ''salt''" "lit ''encrypted'' \<noteq> lit ''iv''"
  "lit ''encrypted'' \<noteq> lit ''algorithm''" "lit ''encrypted'' \<noteq> lit ''version''"
  "lit ''salt'' \<noteq> lit ''iv''" "lit ''salt'' \<noteq> lit ''algorithm''"
  "lit ''salt'' \<noteq> lit ''version''" "lit ''iv'' \<noteq> lit ''algorithm''"
  "lit ''iv'' \<noteq> lit ''version''" "lit ''algorithm'' \<noteq> lit ''version''"
  by (simp_all add: lit_def)

text \<open>What a successful \<open>encryptText\<close> has computed.\<close>

lemma encryptText_Inr:
  assumes "encryptText W plaintext password rng = (Inr envelope, rng')"
  shows "\<exists>key buf c e64 s64 i64.
      deriveKey W password (fst (getRandomValues 16 rng)) = Inr key
    \<and> stringToArrayBuffer plaintext = Inr buf
    \<and> encrypt_AES_GCM W (fst (getRandomValues 12 (snd (getRandomValues 16 rng)))) key buf = Inr c
    \<and> arrayBufferToBase64 c = Inr e64
    \<and> arrayBufferToBase64 (fst (getRandomValues 16 rng)) = Inr s64
    \<and> arrayBufferToBase64 (fst (getRandomValues 12 (snd (getRandomValues 16 rng)))) = Inr i64
    \<and> envelope = JObj [(lit ''encrypted'', JStr e64), (lit ''salt'', JStr s64),
                       (lit ''iv'', JStr i64), (lit ''algorithm'', JStr (lit ''AES-256-GCM'')),
                       (lit ''version'', JStr (lit ''1.0''))]
    \<and> rng' = snd (getRandomValues 12 (snd (getRandomValues 16 rng)))"
proof -
  let ?salt = "fst (getRandomValues 16 rng)"
  let ?iv = "fst (getRandomValues 12 (snd (getRandomValues 16 rng)))"
  let ?body = "and_then (deriveKey W password ?salt) (\<lambda>key.
         and_then (stringToArrayBuffer plaintext) (\<lambda>plaintextBuffer.
         and_then (encrypt_AES_GCM W ?iv key plaintextBuffer) (\<lambda>encryptedBuffer.
         and_then (arrayBufferToBase64 encryptedBuffer) (\<lambda>encrypted64.
         and_then (arrayBufferToBase64 ?salt) (\<lambda>salt64.
         and_then (arrayBufferToBase64 ?iv) (\<lambda>iv64.
           Inr (JObj [(lit ''encrypted'', JStr encrypted64),
                      (lit ''salt'', JStr salt64),
                      (lit ''iv'', JStr iv64),
                      (lit ''algorithm'', JStr (lit ''AES-256-GCM'')),
                      (lit ''version'', JStr (lit ''1.0''))])))))))"
  have e: "encryptText W plaintext password rng =
      (case ?body of Inl e \<Rightarrow> Inl (EncryptFailed e) | Inr v \<Rightarrow> Inr v,
       snd (getRandomValues 12 (snd (getRandomValues 16 rng))))"
    by (simp add: encryptText_def Let_def case_prod_beta)
  from assms have b: "?body = Inr envelope"
    and r: "rng' = snd (getRandomValues 12 (snd (getRandomValues 16 rng)))"
    unfolding e by (auto split: sum.splits)
  from b r show ?thesis
    unfolding and_then_Inr by blast
qed

lemma decryptText_envelope:
  assumes law: "\<forall>iv key data c. encrypt_AES_GCM W iv key data = Inr c
                  \<longrightarrow> decrypt_AES_GCM W iv key c = Inr data"
    and enc: "encryptText W plaintext password rng = (Inr envelope, rng')"
    and buf: "stringToArrayBuffer plaintext = Inr buf"
  shows "decryptText W envelope password = Inr (TextDecoder_decode buf)"
proof -
  let ?salt = "fst (getRandomValues 16 rng)"
  let ?iv = "fst (getRandomValues 12 (snd (getRandomValues 16 rng)))"
  from encryptText_Inr[OF enc] buf obtain key c e64 s64 i64 where
    key: "deriveKey W password ?salt = Inr key"
    and c: "encrypt_AES_GCM W ?iv key buf = Inr c"
    and e64: "arrayBufferToBase64 c = Inr e64"
    and s64: "arrayBufferToBase64 ?salt = Inr s64"
    and i64: "arrayBufferToBase64 ?iv = Inr i64"
    and env: "envelope = JObj [(lit ''encrypted'', JStr e64), (lit ''salt'', JStr s64),
                       (lit ''iv'', JStr i64), (lit ''algorithm'', JStr (lit ''AES-256-GCM'')),
                       (lit ''version'', JStr (lit ''1.0''))]"
    by auto
  have d: "decrypt_AES_GCM W ?iv key c = Inr buf" using law c by blast
  show ?thesis
    unfolding decryptText_def env
    by (simp add: js_get_def envelope_keys_distinct envelope_keys_distinct[symmetric]
        base64_decode_encoded[OF e64] base64_decode_encoded[OF s64]
        base64_decode_encoded[OF i64] key d arrayBufferToString_def)
qed

lemma arrayBufferToBase64_total: "\<exists>s. arrayBufferToBase64 buf = Inr s"
  using base64_roundtrip[of buf] by blast

text \<open>\<open>encryptText\<close> returns an envelope whenever the primitives it calls succeed.\<close>

lemma encryptText_succeeds:
  assumes "deriveKey W password (fst (getRandomValues 16 rng)) = Inr key"
    and "stringToArrayBuffer plaintext = Inr buf"
    and "encrypt_AES_GCM W (fst (getRandomValues 12 (snd (getRandomValues 16 rng)))) key buf
         = Inr c"
  shows "\<exists>envelope rng'. encryptText W plaintext password rng = (Inr envelope, rng')"
proof -
  obtain e64 where e64: "arrayBufferToBase64 c = Inr e64"
    using arrayBufferToBase64_total by blast
  obtain s64 where s64: "arrayBufferToBase64 (fst (getRandomValues 16 rng)) = Inr s64"
    using arrayBufferToBase64_total by blast
  obtain i64 where i64: "arrayBufferToBase64
      (fst (getRandomValues 12 (snd (getRandomValues 16 rng)))) = Inr i64"
    using arrayBufferToBase64_total by blast
  show ?thesis
    by (simp add: encryptText_def Let_def case_prod_beta assms e64 s64 i64)
qed

lemma sample_crypto_law:
  "\<forall>iv key data c. encrypt_AES_GCM sample_crypto iv key data = Inr c
     \<longrightarrow> decrypt_AES_GCM sample_crypto iv key c = Inr data"
  by (auto simp add: sample_crypto_def)

lemma sample_deriveKey_value:
  "stringToArrayBuffer password = Inr raw \<Longrightarrow>
   deriveKey sample_crypto password salt = Inr (raw @ salt)"
  by (simp add: deriveKey_def sample_crypto_def)

lemma sample_deriveKey:
  "deriveKey sample_crypto (JStr K) salt = Inr (TextEncoder_encode K @ salt)"
  by (simp add: sample_deriveKey_value stringToArrayBuffer_def)

lemma sample_encryptText_value:
  assumes "stringToArrayBuffer password = Inr raw"
  shows "\<exists>envelope rng'.
     encryptText sample_crypto (JStr P) password rng = (Inr envelope, rng')"
proof (rule encryptText_succeeds)
  show "deriveKey sample_crypto password (fst (getRandomValues 16 rng))
      = Inr (raw @ fst (getRandomValues 16 rng))"
    by (rule sample_deriveKey_value[OF assms])
  show "stringToArrayBuffer (JStr P) = Inr (TextEncoder_encode P)"
    by (simp add: stringToArrayBuffer_def)
  show "encrypt_AES_GCM sample_crypto (fst (getRandomValues 12 (snd (getRandomValues 16 rng))))
      (raw @ fst (getRandomValues 16 rng)) (TextEncoder_encode P)
      = Inr ((raw @ fst (getRandomValues 16 rng))
             @ fst (getRandomValues 12 (snd (getRandomValues 16 rng))) @ TextEncoder_encode P)"
    by (simp add: sample_crypto_def)
qed

lemma sample_encryptText:
  "\<exists>envelope rng'. encryptText sample_crypto (JStr P) (JStr K) rng = (Inr envelope, rng')"
  by (rule sample_encryptText_value[of _ "TextEncoder_encode K"])
     (simp add: stringToArrayBuffer_def)

text \<open>
  Under the stand-in platform, decrypting what was encrypted gives the plaintext after
  one pass through the encoder and the decoder.
\<close>

lemma sample_encrypt_then_decrypt:
  "encrypt_then_decrypt sample_crypto P K rng
   = Some (Inr (TextDecoder_decode (TextEncoder_encode P)))"
proof -
  obtain envelope rng' where
    e: "encryptText sample_crypto (JStr P) (JStr K) rng = (Inr envelope, rng')"
    using sample_encryptText by blast
  have "stringToArrayBuffer (JStr P) = Inr (TextEncoder_encode P)"
    by (simp add: stringToArrayBuffer_def)
  from decryptText_envelope[OF sample_crypto_law e this] e
  show ?thesis by (simp add: encrypt_then_decrypt_def)
qed

text \<open>
  C1 (as amended). For every plaintext \<open>P\<close> that is well-formed UTF-16 and does not
  begin with U+FEFF, and every password \<open>K\<close>: when \<open>encryptText(P, K)\<close> returns an
  envelope, \<open>decryptText\<close> of that envelope with \<open>K\<close> returns exactly \<open>P\<close>,
  provided AES-GCM decryption inverts AES-GCM encryption under the same key and vector.
\<close>

theorem C1_roundtrip:
  assumes "\<forall>iv key data c. encrypt_AES_GCM W iv key data = Inr c
             \<longrightarrow> decrypt_AES_GCM W iv key c = Inr data"
    and "well_formed P" and "P = [] \<or> hd P \<noteq> 0xFEFF"
    and "encryptText W (JStr P) (JStr K) rng = (Inr envelope, rng')"
  shows "decryptText W envelope (JStr K) = Inr P"
proof -
  have "stringToArrayBuffer (JStr P) = Inr (TextEncoder_encode P)"
    by (simp add: stringToArrayBuffer_def)
  from decryptText_envelope[OF assms(1) assms(4) this]
  show ?thesis by (simp add: text_roundtrip[OF assms(2,3)])
qed

theorem C1_roundtrip_witness:
  "encrypt_then_decrypt sample_crypto (lit ''hello'') (lit ''pw'') sample_entropy
   = Some (Inr (lit ''hello''))"
proof -
  obtain envelope rng' where
    e: "encryptText sample_crypto (JStr (lit ''hello'')) (JStr (lit ''pw'')) sample_entropy
        = (Inr envelope, rng')"
    using sample_encryptText by blast
  have wf: "well_formed (lit ''hello'')"
    by (simp add: lit_def is_high_surrogate_def is_low_surrogate_def)
  have hd: "lit ''hello'' = [] \<or> hd (lit ''hello'') \<noteq> 0xFEFF"
    by (simp add: lit_def)
  have "decryptText sample_crypto envelope (JStr (lit ''pw'')) = Inr (lit ''hello'')"
    by (rule C1_roundtrip[OF sample_crypto_law wf hd e])
  with e show ?thesis by (simp add: encrypt_then_decrypt_def)
qed

text \<open>
  The claim as stated fails: an unpaired surrogate comes back as U+FFFD, and a leading
  U+FEFF is dropped.
\<close>

theorem C1_counterexample:
  "encrypt_then_decrypt sample_crypto [0xD800] (lit ''pw'') sample_entropy
     = Some (Inr [0xFFFD])
   \<and> encrypt_then_decrypt sample_crypto [0xFEFF, 0x61] (lit ''pw'') sample_entropy
     = Some (Inr [0x61])"
proof -
  have "TextDecoder_decode (TextEncoder_encode [0xD800]) = [0xFFFD]"
    by (simp add: TextDecoder_decode_def TextEncoder_encode_def is_high_surrogate_def
        utf8_encode_scalar_def utf8_init_def utf8_lead_def from_code_points_def
        code_units_of_def)
  moreover have "TextDecoder_decode (TextEncoder_encode [0xFEFF, 0x61]) = [0x61]"
    by (simp add: TextDecoder_decode_def TextEncoder_encode_def is_high_surrogate_def
        is_low_surrogate_def utf8_encode_scalar_def utf8_init_def utf8_lead_def
        from_code_points_def code_units_of_def)
  ultimately show ?thesis by (simp add: sample_encrypt_then_decrypt)
qed

section \<open>Envelopes\<close>

lemma map_of_set_prop:
  "map_of (set_prop k v kvs) k' = (if k' = k then Some v else map_of kvs k')"
  by (induction kvs) auto

lemma js_get_JObj:
  "js_get (JObj kvs) k = Inr (case map_of kvs k of Some x \<Rightarrow> x | None \<Rightarrow> JUndefined)"
  by (simp add: js_get_def)

lemma js_get_set_prop:
  "js_get (JObj (set_prop k v kvs)) k' = (if k' = k then Inr v else js_get (JObj kvs) k')"
  by (simp add: js_get_JObj map_of_set_prop)

lemma has_truthy_set_prop:
  "k' \<noteq> k \<Longrightarrow> has_truthy (set_prop k v kvs) k' = has_truthy kvs k'"
  by (simp add: has_truthy_def map_of_set_prop)

lemma more_keys_distinct:
  "lit ''version'' \<noteq> lit ''createdAt''"
  "lit ''encrypted'' \<noteq> lit ''createdAt''" "lit ''salt'' \<noteq> lit ''createdAt''"
  "lit ''iv'' \<noteq> lit ''createdAt''" "lit ''algorithm'' \<noteq> lit ''createdAt''"
  by (simp_all add: lit_def)

text \<open>
  \<open>parseEncryptedFromSave\<close> returns the parsed value when it is an envelope, and
  \<open>null\<close> otherwise.
\<close>

lemma parse_if_envelope:
  "JSON_parse J t = Inr v \<Longrightarrow>
   parseEncryptedFromSave J t = (if is_envelope v then v else JNull)"
  by (cases v)
     (auto simp add: parseEncryptedFromSave_def is_envelope_def js_get_def has_truthy_def
        split: option.splits)

lemma parse_failure: "JSON_parse J t = Inl e \<Longrightarrow> parseEncryptedFromSave J t = JNull"
  by (simp add: parseEncryptedFromSave_def)

lemma is_envelope_truthy: "is_envelope v \<Longrightarrow> truthy v"
  by (cases v) (simp_all add: is_envelope_def)

lemma is_envelope_set_version:
  "is_envelope (JObj (set_prop (lit ''version'') v kvs)) = is_envelope (JObj kvs)"
  by (simp add: is_envelope_def has_truthy_set_prop envelope_keys_distinct)

lemma is_envelope_set_algorithm:
  "is_envelope (JObj (set_prop (lit ''algorithm'') v kvs)) = is_envelope (JObj kvs)"
  by (simp add: is_envelope_def has_truthy_set_prop envelope_keys_distinct)

lemma is_envelope_set_createdAt:
  "is_envelope (JObj (set_prop (lit ''createdAt'') v kvs)) = is_envelope (JObj kvs)"
  by (simp add: is_envelope_def has_truthy_set_prop more_keys_distinct)

lemma decryptText_set_prop:
  assumes "k \<noteq> lit ''encrypted''" "k \<noteq> lit ''salt''" "k \<noteq> lit ''iv''" "k \<noteq> lit ''algorithm''"
  shows "decryptText W (JObj (set_prop k v kvs)) pw = decryptText W (JObj kvs) pw"
  using assms by (simp add: decryptText_def js_get_set_prop)

lemma decryptText_unsupported:
  assumes "js_get (JObj kvs) (lit ''algorithm'') \<noteq> Inr (JStr (lit ''AES-256-GCM''))"
  shows "decryptText W (JObj kvs) pw = Inl (DecryptFailed UnsupportedAlgorithm)"
  using assms by (simp add: decryptText_def js_get_JObj)

text \<open>
  C7 (as amended). Neither \<open>parseEncryptedFromSave\<close> nor \<open>decryptText\<close> reads the
  \<open>version\<close> field: whatever value it is given, an object is an envelope or not as
  before, a text that parses to it is classified by the other fields alone, and
  \<open>decryptText\<close> returns the same result. What \<open>decryptText\<close> rejects is an
  \<open>algorithm\<close> other than AES-256-GCM.
\<close>

theorem C7_version_ignored:
  "is_envelope (JObj (set_prop (lit ''version'') v kvs)) = is_envelope (JObj kvs)
   \<and> (JSON_parse J t = Inr (JObj (set_prop (lit ''version'') v kvs)) \<longrightarrow>
        parseEncryptedFromSave J t =
          (if is_envelope (JObj kvs) then JObj (set_prop (lit ''version'') v kvs) else JNull))
   \<and> decryptText W (JObj (set_prop (lit ''version'') v kvs)) pw = decryptText W (JObj kvs) pw
   \<and> (js_get (JObj kvs) (lit ''algorithm'') \<noteq> Inr (JStr (lit ''AES-256-GCM'')) \<longrightarrow>
        decryptText W (JObj kvs) pw = Inl (DecryptFailed UnsupportedAlgorithm))"
  by (simp add: is_envelope_set_version parse_if_envelope decryptText_set_prop
      decryptText_unsupported envelope_keys_distinct[symmetric])

lemmas sample_eval =
  sample_json_def sample_objects_def sample_envelope_def sample_saved_def sample_time_def
  own_props_def lit_def

lemma sample_parse_9_9:
  "JSON_parse sample_json (sample_stringify (sample_envelope (lit ''AES-256-GCM'') (lit ''9.9'')))
   = Inr (sample_envelope (lit ''AES-256-GCM'') (lit ''9.9''))"
  by (simp add: sample_eval)

lemma sample_decrypt:
  "decryptText sample_crypto (sample_envelope (lit ''AES-256-GCM'') version)
     (JStr getDefaultPassword) = Inr (lit ''hello'')"
  by (simp add: decryptText_def sample_envelope_def sample_crypto_def lit_def
      js_get_def base64ToArrayBuffer_def atob_def strip_padding_def ascii_whitespace_def
      b64_index_def deriveKey_def stringToArrayBuffer_def getDefaultPassword_def
      DEFAULT_ENCRYPTION_PASSWORD_def TextEncoder_encode_def utf8_encode_scalar_def
      is_high_surrogate_def is_low_surrogate_def arrayBufferToString_def
      TextDecoder_decode_def utf8_init_def utf8_lead_def from_code_points_def
      code_units_of_def)

theorem C7_version_ignored_witness:
  "parseEncryptedFromSave sample_json
     (sample_stringify (sample_envelope (lit ''AES-256-GCM'') (lit ''9.9'')))
   = sample_envelope (lit ''AES-256-GCM'') (lit ''9.9'')"
proof -
  let ?kvs = "own_props (sample_envelope (lit ''AES-256-GCM'') (lit ''1.0''))"
  have s: "JObj (set_prop (lit ''version'') (JStr (lit ''9.9'')) ?kvs)
      = sample_envelope (lit ''AES-256-GCM'') (lit ''9.9'')"
    by (simp add: sample_envelope_def own_props_def lit_def)
  have e: "is_envelope (JObj ?kvs)"
    by (simp add: is_envelope_def has_truthy_def sample_envelope_def own_props_def lit_def)
  from C7_version_ignored[where v = "JStr (lit ''9.9'')" and kvs = ?kvs and J = sample_json
      and t = "sample_stringify (sample_envelope (lit ''AES-256-GCM'') (lit ''9.9''))"
      and W = sample_crypto and pw = JNull]
  show ?thesis
    unfolding s using e sample_parse_9_9 by simp
qed

text \<open>
  The claim as stated fails: an envelope of version 9.9 is returned by
  \<open>parseEncryptedFromSave\<close> and decrypted by \<open>decryptText\<close>.
\<close>

theorem C7_counterexample:
  "parseEncryptedFromSave sample_json
     (sample_stringify (sample_envelope (lit ''AES-256-GCM'') (lit ''9.9'')))
   = sample_envelope (lit ''AES-256-GCM'') (lit ''9.9'')
   \<and> decryptText sample_crypto (sample_envelope (lit ''AES-256-GCM'') (lit ''9.9''))
        (JStr getDefaultPassword) = Inr (lit ''hello'')"
proof -
  have "is_envelope (sample_envelope (lit ''AES-256-GCM'') (lit ''9.9''))"
    by (simp add: is_envelope_def has_truthy_def sample_envelope_def lit_def)
  then show ?thesis
    by (simp add: parse_if_envelope[OF sample_parse_9_9] sample_decrypt)
qed

section \<open>Key derivation\<close>

lemma getRandomValues_length: "length (fst (getRandomValues n rng)) = n"
  by (simp add: getRandomValues_def)

text \<open>
  C5 (as amended). \<open>deriveKey\<close> validates nothing: for every password string and
  every salt, of any length, it returns a key exactly when the platform's
  \<open>importKey\<close> accepts the UTF-8 bytes of the password and its PBKDF2 (100000
  iterations) returns that key for the salt. On the encrypting path the salt it is
  given is the 16 random bytes that \<open>encryptText\<close> has drawn and stores, in base64,
  in the envelope.
\<close>

theorem C5_deriveKey_unchecked:
  "(deriveKey W (JStr K) salt = Inr key \<longleftrightarrow>
      (\<exists>pk. importKey W (TextEncoder_encode K) = Inr pk
            \<and> deriveKey_PBKDF2 W salt 100000 pk = Inr key))
   \<and> (encryptText W plaintext password rng = (Inr envelope, rng') \<longrightarrow>
      (\<exists>salt64 usedKey.
          js_get envelope (lit ''salt'') = Inr (JStr salt64)
        \<and> base64ToArrayBuffer (JStr salt64) = Inr (fst (getRandomValues 16 rng))
        \<and> length (fst (getRandomValues 16 rng)) = 16
        \<and> deriveKey W password (fst (getRandomValues 16 rng)) = Inr usedKey))"
proof -
  have "deriveKey W (JStr K) salt = Inr key \<longleftrightarrow>
      (\<exists>pk. importKey W (TextEncoder_encode K) = Inr pk
            \<and> deriveKey_PBKDF2 W salt 100000 pk = Inr key)"
    by (simp add: deriveKey_def stringToArrayBuffer_def and_then_Inr)
  moreover have "\<exists>salt64 usedKey.
          js_get envelope (lit ''salt'') = Inr (JStr salt64)
        \<and> base64ToArrayBuffer (JStr salt64) = Inr (fst (getRandomValues 16 rng))
        \<and> length (fst (getRandomValues 16 rng)) = 16
        \<and> deriveKey W password (fst (getRandomValues 16 rng)) = Inr usedKey"
    if enc: "encryptText W plaintext password rng = (Inr envelope, rng')"
  proof -
    from encryptText_Inr[OF enc] obtain usedKey e64 s64 i64 where
      key: "deriveKey W password (fst (getRandomValues 16 rng)) = Inr usedKey"
      and s64: "arrayBufferToBase64 (fst (getRandomValues 16 rng)) = Inr s64"
      and env: "envelope = JObj [(lit ''encrypted'', JStr e64), (lit ''salt'', JStr s64),
                       (lit ''iv'', JStr i64), (lit ''algorithm'', JStr (lit ''AES-256-GCM'')),
                       (lit ''version'', JStr (lit ''1.0''))]"
      by auto
    have "js_get envelope (lit ''salt'') = Inr (JStr s64)"
      by (simp add: env js_get_def envelope_keys_distinct envelope_keys_distinct[symmetric])
    with key base64_decode_encoded[OF s64] show ?thesis
      by (simp add: getRandomValues_length)
  qed
  ultimately show ?thesis by blast
qed

theorem C5_deriveKey_unchecked_witness:
  "\<exists>envelope rng' salt64 saltBuffer.
      encryptText sample_crypto (JStr (lit ''hello'')) (JStr []) sample_entropy
        = (Inr envelope, rng')
    \<and> js_get envelope (lit ''salt'') = Inr (JStr salt64)
    \<and> base64ToArrayBuffer (JStr salt64) = Inr saltBuffer
    \<and> length saltBuffer = 16"
proof -
  obtain envelope rng' where
    e: "encryptText sample_crypto (JStr (lit ''hello'')) (JStr []) sample_entropy
        = (Inr envelope, rng')"
    using sample_encryptText by blast
  from C5_deriveKey_unchecked[where W = sample_crypto and plaintext = "JStr (lit ''hello'')"
      and password = "JStr []" and rng = sample_entropy and envelope = envelope
      and rng' = rng' and K = "[]" and salt = "[]" and key = "[]"] e
  show ?thesis by blast
qed

text \<open>
  The claim as stated fails: the empty password and the empty salt give a key, with no
  InvalidInputError.
\<close>

theorem C5_counterexample: "deriveKey sample_crypto (JStr []) [] = Inr []"
  by (simp add: sample_deriveKey TextEncoder_encode_def)

section \<open>Serialising and parsing an envelope\<close>

text \<open>
  C4 (as amended). For every envelope object (its \<open>encrypted\<close>, \<open>salt\<close> and
  \<open>iv\<close> truthy), parsing the serialised form returns the object with \<open>createdAt\<close>
  set to the time of the call and \<open>version\<close> set to \<open>1.0\<close>; every other field
  is as in the envelope. \<open>JSON.parse\<close> is assumed to read back what
  \<open>JSON.stringify\<close> wrote for that object.
\<close>

theorem C4_parse_format:
  assumes "is_envelope (JObj kvs)"
    and "saved = JObj (set_prop (lit ''version'') (JStr (lit ''1.0''))
                        (set_prop (lit ''createdAt'') (JStr now) kvs))"
    and "JSON_parse J (JSON_stringify J saved) = Inr saved"
  shows "parseEncryptedFromSave J (formatEncryptedForSave J now (JObj kvs)) = saved
       \<and> js_get saved (lit ''createdAt'') = Inr (JStr now)
       \<and> js_get saved (lit ''version'') = Inr (JStr (lit ''1.0''))
       \<and> (k \<noteq> lit ''createdAt'' \<and> k \<noteq> lit ''version''
           \<longrightarrow> js_get saved k = js_get (JObj kvs) k)"
proof -
  have f: "formatEncryptedForSave J now (JObj kvs) = JSON_stringify J saved"
    by (simp add: formatEncryptedForSave_def own_props_def assms(2))
  have e: "is_envelope saved"
    using assms(1) by (simp add: assms(2) is_envelope_set_version is_envelope_set_createdAt)
  have "parseEncryptedFromSave J (formatEncryptedForSave J now (JObj kvs)) = saved"
    unfolding f using parse_if_envelope[OF assms(3)] e by simp
  then show ?thesis
    by (simp add: assms(2) js_get_set_prop more_keys_distinct more_keys_distinct[symmetric])
qed

lemma sample_saved_eq:
  "sample_saved =
     JObj (set_prop (lit ''version'') (JStr (lit ''1.0''))
            (set_prop (lit ''createdAt'') (JStr sample_time)
              (own_props (sample_envelope (lit ''AES-256-GCM'') (lit ''1.0'')))))"
  by (simp add: sample_saved_def sample_envelope_def own_props_def lit_def)

lemma sample_parse_saved:
  "JSON_parse sample_json (JSON_stringify sample_json sample_saved) = Inr sample_saved"
  by (simp add: sample_eval)

lemma sample_envelope_is_envelope: "is_envelope (sample_envelope a v)"
  by (simp add: is_envelope_def has_truthy_def sample_envelope_def lit_def)

theorem C4_parse_format_witness:
  "parseEncryptedFromSave sample_json
     (formatEncryptedForSave sample_json sample_time
        (sample_envelope (lit ''AES-256-GCM'') (lit ''1.0''))) = sample_saved
   \<and> js_get sample_saved (lit ''salt'')
       = js_get (sample_envelope (lit ''AES-256-GCM'') (lit ''1.0'')) (lit ''salt'')"
proof -
  let ?kvs = "own_props (sample_envelope (lit ''AES-256-GCM'') (lit ''1.0''))"
  have o: "JObj ?kvs = sample_envelope (lit ''AES-256-GCM'') (lit ''1.0'')"
    by (simp add: sample_envelope_def own_props_def)
  have e: "is_envelope (JObj ?kvs)"
    unfolding o by (rule sample_envelope_is_envelope)
  from C4_parse_format[OF e sample_saved_eq sample_parse_saved, of "lit ''salt''"]
  show ?thesis
    unfolding o
    by (simp add: more_keys_distinct more_keys_distinct[symmetric] envelope_keys_distinct
        envelope_keys_distinct[symmetric])
qed

text \<open>
  The claim as stated fails: what is parsed back has a \<open>createdAt\<close> field that the
  envelope did not have.
\<close>

theorem C4_counterexample:
  "parseEncryptedFromSave sample_json
     (formatEncryptedForSave sample_json sample_time
        (sample_envelope (lit ''AES-256-GCM'') (lit ''1.0'')))
   \<noteq> sample_envelope (lit ''AES-256-GCM'') (lit ''1.0'')"
proof -
  have f: "formatEncryptedForSave sample_json sample_time
        (sample_envelope (lit ''AES-256-GCM'') (lit ''1.0''))
      = JSON_stringify sample_json sample_saved"
    by (simp add: formatEncryptedForSave_def sample_saved_eq)
  have e: "is_envelope sample_saved"
    by (simp add: sample_saved_eq is_envelope_set_version is_envelope_set_createdAt
        sample_envelope_def own_props_def is_envelope_def has_truthy_def lit_def)
  have "parseEncryptedFromSave sample_json (JSON_stringify sample_json sample_saved)
      = sample_saved"
    using parse_if_envelope[OF sample_parse_saved] e by simp
  moreover have "sample_saved \<noteq> sample_envelope (lit ''AES-256-GCM'') (lit ''1.0'')"
    by (simp add: sample_saved_def sample_envelope_def own_props_def)
  ultimately show ?thesis by (simp add: f)
qed

section \<open>Opening a document\<close>

lemma handleOpenDocument_envelope:
  assumes "showOpenFilePicker E = Inr file"
    and "truthy (parseEncryptedFromSave J (file_text file))"
  shows "handleOpenDocument E W J st =
     (case decryptText W (parseEncryptedFromSave J (file_text file)) (JStr getDefaultPassword) of
        Inr decryptedContent \<Rightarrow>
          toast_success OpenedWithDefaultKey
            ((setDocumentInfo
                (\<lambda>d. d\<lparr>filePath := Some (file_name file),
                        fileName := file_name file,
                        fileHandle := Some (picked_handle file),
                        isModified := False,
                        isEncrypted := True,
                        lastSaved := Some (toISOString E (file_lastModified file))\<rparr>)
                (setDocumentContent decryptedContent st))
             \<lparr>currentPasswordRef := JStr getDefaultPassword\<rparr>)
      | Inl defaultDecryptError \<Rightarrow>
          st\<lparr>encryptionDialog :=
               \<lparr>dlg_isOpen = True,
                dlg_mode = lit ''decrypt'',
                dlg_content = [],
                dlg_encryptedData = parseEncryptedFromSave J (file_text file),
                dlg_pendingAction =
                  Some (PendingOpen (file_name file) (file_name file)
                                    (file_lastModified file) (picked_handle file))\<rparr>\<rparr>)"
  using assms by (simp add: handleOpenDocument_def Let_def)

text \<open>
  C3. For every file content that parses as an encrypted envelope, the open operation
  first tries the default secret. If that decryption succeeds, the document opens with
  the decrypted content, \<open>isEncrypted\<close> is true, the session password is the default
  secret and the password dialog is left as it was; the dialog is opened exactly when
  the decryption with the default secret fails.
\<close>

theorem C3_fallback_first_open:
  assumes "showOpenFilePicker E = Inr file"
    and "encryptedData = parseEncryptedFromSave J (file_text file)"
    and "truthy encryptedData"
    and "st' = handleOpenDocument E W J st"
  shows "(decryptText W encryptedData (JStr getDefaultPassword) = Inr plaintext \<longrightarrow>
            content (currentDocument st') = plaintext
          \<and> isEncrypted (currentDocument st')
          \<and> currentPasswordRef st' = JStr getDefaultPassword
          \<and> encryptionDialog st' = encryptionDialog st
          \<and> toasts st' = toasts st @ [ToastSuccess OpenedWithDefaultKey])
       \<and> (decryptText W encryptedData (JStr getDefaultPassword) = Inl e \<longrightarrow>
            dlg_isOpen (encryptionDialog st')
          \<and> dlg_encryptedData (encryptionDialog st') = encryptedData
          \<and> currentDocument st' = currentDocument st
          \<and> currentPasswordRef st' = currentPasswordRef st
          \<and> toasts st' = toasts st)
       \<and> getDefaultPassword = lit ''textx_default_key_2024''"
proof -
  have t: "truthy (parseEncryptedFromSave J (file_text file))"
    using assms(2,3) by simp
  show ?thesis
    unfolding assms(4) handleOpenDocument_envelope[OF assms(1) t] assms(2)
    by (auto simp add: toast_success_def setDocumentInfo_def setDocumentContent_def
        getDefaultPassword_def DEFAULT_ENCRYPTION_PASSWORD_def)
qed

lemma sample_parse_1_0:
  "JSON_parse sample_json (sample_stringify (sample_envelope (lit ''AES-256-GCM'') (lit ''1.0'')))
   = Inr (sample_envelope (lit ''AES-256-GCM'') (lit ''1.0''))"
  by (simp add: sample_eval)

theorem C3_fallback_first_open_witness:
  "content (currentDocument
     (handleOpenDocument
        (sample_env (sample_stringify (sample_envelope (lit ''AES-256-GCM'') (lit ''1.0''))))
        sample_crypto sample_json (sample_editor []))) = lit ''hello''
   \<and> \<not> dlg_isOpen (encryptionDialog
     (handleOpenDocument
        (sample_env (sample_stringify (sample_envelope (lit ''AES-256-GCM'') (lit ''1.0''))))
        sample_crypto sample_json (sample_editor [])))"
proof -
  let ?t = "sample_stringify (sample_envelope (lit ''AES-256-GCM'') (lit ''1.0''))"
  let ?file = "\<lparr>file_name = lit ''notes.enc.md'', file_text = ?t, file_lastModified = 0,
                 picked_handle = sample_handle\<rparr>"
  have p: "showOpenFilePicker (sample_env ?t) = Inr ?file"
    by (simp add: sample_env_def)
  have d: "sample_envelope (lit ''AES-256-GCM'') (lit ''1.0'')
      = parseEncryptedFromSave sample_json (file_text ?file)"
    using parse_if_envelope[OF sample_parse_1_0] sample_envelope_is_envelope by simp
  have t: "truthy (sample_envelope (lit ''AES-256-GCM'') (lit ''1.0''))"
    by (simp add: sample_envelope_def)
  from C3_fallback_first_open[OF p d t refl, where W = sample_crypto
      and st = "sample_editor []" and plaintext = "lit ''hello''" and e = OperationError]
  show ?thesis
    by (simp add: sample_decrypt sample_editor_def)
qed

text \<open>
  C9. \<open>parseEncryptedFromSave\<close> returns the parsed value exactly when the content
  is JSON for an object whose \<open>encrypted\<close>, \<open>salt\<close> and \<open>iv\<close> are present and
  truthy, and \<open>null\<close> otherwise; \<open>algorithm\<close> and \<open>version\<close> are not read. So a
  content with an unrecognised algorithm is classified as encrypted:
  \<open>handleOpenDocument\<close> sends it to \<open>decryptText\<close>, which fails, and opens the
  password dialog instead of showing the content as plain text; \<open>isEncryptedData\<close>,
  which also compares the algorithm, rejects the same content.
\<close>

theorem C9_classifier:
  assumes "showOpenFilePicker E = Inr file"
    and "JSON_parse J (file_text file) = Inr v"
    and "is_envelope v"
    and "js_get v (lit ''algorithm'') \<noteq> Inr (JStr (lit ''AES-256-GCM''))"
  shows "parseEncryptedFromSave J t =
           (case JSON_parse J t of
              Inl e \<Rightarrow> JNull
            | Inr parsed \<Rightarrow> if is_envelope parsed then parsed else JNull)
       \<and> parseEncryptedFromSave J (file_text file) = v
       \<and> decryptText W v password = Inl (DecryptFailed UnsupportedAlgorithm)
       \<and> handleOpenDocument E W J st =
           st\<lparr>encryptionDialog :=
                \<lparr>dlg_isOpen = True,
                 dlg_mode = lit ''decrypt'',
                 dlg_content = [],
                 dlg_encryptedData = v,
                 dlg_pendingAction =
                   Some (PendingOpen (file_name file) (file_name file)
                                     (file_lastModified file) (picked_handle file))\<rparr>\<rparr>
       \<and> \<not> truthy (isEncryptedData J (file_text file))
       \<and> is_envelope (JObj (set_prop (lit ''algorithm'') a kvs)) = is_envelope (JObj kvs)
       \<and> is_envelope (JObj (set_prop (lit ''version'') a kvs)) = is_envelope (JObj kvs)"
proof -
  have c: "parseEncryptedFromSave J t =
           (case JSON_parse J t of
              Inl e \<Rightarrow> JNull
            | Inr parsed \<Rightarrow> if is_envelope parsed then parsed else JNull)"
    by (cases "JSON_parse J t") (simp_all add: parse_failure parse_if_envelope)
  have p: "parseEncryptedFromSave J (file_text file) = v"
    using parse_if_envelope[OF assms(2)] assms(3) by simp
  obtain fields where v: "v = JObj fields"
    using assms(3) by (cases v) (simp_all add: is_envelope_def)
  have d: "decryptText W v pw = Inl (DecryptFailed UnsupportedAlgorithm)" for pw
    unfolding v by (rule decryptText_unsupported) (use assms(4) v in simp)
  have h: "handleOpenDocument E W J st =
           st\<lparr>encryptionDialog :=
                \<lparr>dlg_isOpen = True,
                 dlg_mode = lit ''decrypt'',
                 dlg_content = [],
                 dlg_encryptedData = v,
                 dlg_pendingAction =
                   Some (PendingOpen (file_name file) (file_name file)
                                     (file_lastModified file) (picked_handle file))\<rparr>\<rparr>"
    using handleOpenDocument_envelope[OF assms(1), of J W st] is_envelope_truthy[OF assms(3)]
    by (simp add: p d)
  have i: "\<not> truthy (isEncryptedData J (file_text file))"
    using assms(3,4) unfolding v
    by (auto simp add: isEncryptedData_def assms(2) v is_envelope_def has_truthy_def js_get_JObj
        split: option.splits)
  from c p d h i show ?thesis
    by (simp add: is_envelope_set_algorithm is_envelope_set_version)
qed

lemma sample_parse_rot13:
  "JSON_parse sample_json (sample_stringify (sample_envelope (lit ''ROT13'') (lit ''1.0'')))
   = Inr (sample_envelope (lit ''ROT13'') (lit ''1.0''))"
  by (simp add: sample_eval)

theorem C9_classifier_witness:
  "parseEncryptedFromSave sample_json
     (sample_stringify (sample_envelope (lit ''ROT13'') (lit ''1.0'')))
   = sample_envelope (lit ''ROT13'') (lit ''1.0'')
   \<and> dlg_isOpen (encryptionDialog
        (handleOpenDocument
           (sample_env (sample_stringify (sample_envelope (lit ''ROT13'') (lit ''1.0''))))
           sample_crypto sample_json (sample_editor [])))
   \<and> \<not> truthy (isEncryptedData sample_json
        (sample_stringify (sample_envelope (lit ''ROT13'') (lit ''1.0''))))"
proof -
  let ?t = "sample_stringify (sample_envelope (lit ''ROT13'') (lit ''1.0''))"
  let ?file = "\<lparr>file_name = lit ''notes.enc.md'', file_text = ?t, file_lastModified = 0,
                 picked_handle = sample_handle\<rparr>"
  have p: "showOpenFilePicker (sample_env ?t) = Inr ?file"
    by (simp add: sample_env_def)
  have j: "JSON_parse sample_json (file_text ?file)
      = Inr (sample_envelope (lit ''ROT13'') (lit ''1.0''))"
    using sample_parse_rot13 by simp
  have a: "js_get (sample_envelope (lit ''ROT13'') (lit ''1.0'')) (lit ''algorithm'')
      \<noteq> Inr (JStr (lit ''AES-256-GCM''))"
    by (simp add: sample_envelope_def js_get_def lit_def)
  from C9_classifier[OF p j sample_envelope_is_envelope a, where W = sample_crypto
      and st = "sample_editor []" and t = "[]" and password = JNull and a = JNull
      and kvs = "[]"]
  show ?thesis by simp
qed

section \<open>Saving a document\<close>

text \<open>
  C10. The save operation rejects an empty or whitespace-only document in every mode:
  when the trimmed content of the document that \<open>handleSaveDocument\<close> reads (the
  \<open>currentDocument\<close> of its closure) is empty, it only reports the error, whatever the
  save mode, the password and the auto-save flag, given or left to their defaults.
  Nothing is encrypted or written, and the store's document (file path, handle, modified
  flag), the password reference and the dialogs are as before.
\<close>

theorem C10_empty_document_rejected:
  assumes "trim (content currentDoc) = []"
    and "st' = handleSaveDocument E W J currentDoc st saveMode password isAutoSave"
  shows "st' = toast_error DocumentIsEmpty st
       \<and> toasts st' = toasts st @ [ToastError DocumentIsEmpty]
       \<and> currentDocument st' = currentDocument st
       \<and> disk st' = disk st
       \<and> random_source st' = random_source st
       \<and> currentPasswordRef st' = currentPasswordRef st
       \<and> showSaveDialog st' = showSaveDialog st"
  using assms by (simp add: handleSaveDocument_def toast_error_def Let_def)

lemma trim_blank: "trim (lit '' \<newline> '') = []"
  by (simp add: trim_def js_whitespace_def lit_def)

theorem C10_empty_document_rejected_witness:
  "handleSaveDocument (sample_env []) sample_crypto sample_json
     (currentDocument (sample_editor (lit '' \<newline> ''))) (sample_editor (lit '' \<newline> ''))
     (JStr (lit ''normal'')) JUndefined JUndefined
   = toast_error DocumentIsEmpty (sample_editor (lit '' \<newline> ''))"
proof -
  have "trim (content (currentDocument (sample_editor (lit '' \<newline> '')))) = []"
    by (simp add: sample_editor_def trim_blank)
  from C10_empty_document_rejected[OF this refl, where E = "sample_env []"
      and W = sample_crypto and J = sample_json
      and st = "sample_editor (lit '' \<newline> '')" and saveMode = "JStr (lit ''normal'')"
      and password = JUndefined and isAutoSave = JUndefined]
  show ?thesis by simp
qed

text \<open>
  The document tested is the one the callback captured. On the auto-save path that is
  the document before the edit which set the timer: for a plain document with a file
  handle, the timer's callback writes the content from before the edit and marks the
  store's document, which holds the new content, as saved.
\<close>

lemma autoSave_uses_captured_document:
  assumes "trim (content currentDoc) \<noteq> []"
    and "\<not> isEncrypted currentDoc"
    and "filePath currentDoc = Some path" and "path \<noteq> []"
    and "fileHandle currentDoc = Some handle"
    and "write_file E handle (content currentDoc) = None"
    and "handleContentChange True currentDoc newContent st = (st1, timer)"
  shows "timer = Some currentDoc
       \<and> content (currentDocument st1) = newContent
       \<and> disk (autoSave_timeout E W J currentDoc st1)
         = disk st1 @ [(handle, content currentDoc)]
       \<and> content (currentDocument (autoSave_timeout E W J currentDoc st1)) = newContent
       \<and> \<not> isModified (currentDocument (autoSave_timeout E W J currentDoc st1))
       \<and> toasts (autoSave_timeout E W J currentDoc st1) = toasts st1"
proof -
  have n: "lit ''normal'' \<noteq> lit ''default''" "lit ''normal'' \<noteq> lit ''custom''"
    by (simp_all add: lit_def)
  have t: "timer = Some currentDoc" and s: "st1 = setDocumentContent newContent st"
    using assms(3,4,7) by (auto simp add: handleContentChange_def)
  have c: "content (currentDocument st1) = newContent"
    by (simp add: s setDocumentContent_def)
  have e: "encrypt_for_save E W J currentDoc st1 (JStr (lit ''normal'')) JNull
      = (Inr (content currentDoc, lit ''.md'', False), st1)"
    by (simp add: encrypt_for_save_def n)
  have h: "autoSave_timeout E W J currentDoc st1
      = save_done E (JBool True) (st1\<lparr>disk := disk st1 @ [(handle, content currentDoc)]\<rparr>)"
    using assms(1,2,4,6)
    by (simp add: autoSave_timeout_def handleSaveDocument_def default_parameter_def e
        assms(3) assms(5) Let_def)
  show ?thesis
    by (simp add: t c h save_done_def markDocumentSaved_def Let_def)
qed

text \<open>
  What \<open>handleSaveDocument\<close> does for a document that is not blank and has no file
  yet, in an encrypting mode, when encryption, the save picker and the write succeed.
\<close>

lemma handleSaveDocument_encrypted_new_file:
  assumes "trim (content currentDoc) \<noteq> []"
    and "saveMode = JStr (lit ''custom'')"
    and "password \<noteq> JUndefined"
    and "encryptText W (JStr (content currentDoc)) password (random_source st)
         = (Inr envelope, rng)"
    and "filePath currentDoc = None"
    and "showSaveFilePicker E suggested True = Inr handle"
    and "suggested = (if fileName currentDoc \<noteq> []
           then replace_extension (lit ''.enc.md'') (fileName currentDoc)
           else lit ''untitled'' @ lit ''.enc.md'')"
    and "write_file E handle (formatEncryptedForSave J (toISOString E (new_Date E)) envelope)
         = None"
  shows "disk (handleSaveDocument E W J currentDoc st saveMode password isAutoSave)
         = disk st @ [(handle, formatEncryptedForSave J (toISOString E (new_Date E)) envelope)]
       \<and> currentPasswordRef (handleSaveDocument E W J currentDoc st saveMode password
           isAutoSave) = password
       \<and> isEncrypted (currentDocument
           (handleSaveDocument E W J currentDoc st saveMode password isAutoSave))"
proof -
  have c: "lit ''custom'' \<noteq> lit ''default''" by (simp add: lit_def)
  have p: "encrypt_for_save E W J currentDoc st (JStr (lit ''custom'')) password =
      (Inr (formatEncryptedForSave J (toISOString E (new_Date E)) envelope,
            lit ''.enc.md'', True),
       st\<lparr>random_source := rng, currentPasswordRef := password\<rparr>)"
    by (simp add: encrypt_for_save_def assms(4) c)
  show ?thesis
    unfolding assms(2)
    using assms(1,3,6,8)
    by (simp add: handleSaveDocument_def default_parameter_def p assms(5)
        assms(7)[symmetric] save_done_def markDocumentSaved_def setDocumentInfo_def
        toast_success_def Let_def)
qed

text \<open>
  C6 (as amended). Saving in custom mode with an absent or empty password is rejected
  before anything is encrypted or written by the server route (status 400) and by the
  client's save dialog, which reports the missing password and does not call the save
  handler. \<open>handleSaveDocument\<close> itself leaves the check to its callers.
\<close>

theorem C6_missing_password_rejected:
  "(truthy (req_filePath req) \<and> req_content req \<noteq> JUndefined
      \<and> truthy (req_encrypted req) \<and> \<not> truthy (req_password req)
     \<longrightarrow> save_route S N J req srv = (Response400 PasswordRequiredToEncrypt, srv))
   \<and> (sd_saveMode dlg = lit ''custom'' \<and> sd_password dlg = []
     \<longrightarrow> SaveDialog_handleSave E W J currentDoc dlg st
         = (dlg, toast_error PleaseEnterPassword st))"
  by (simp add: save_route_def SaveDialog_handleSave_def Let_def)

theorem C6_missing_password_rejected_witness:
  "save_route sample_server_env sample_node sample_json
     \<lparr>req_filePath = JStr (lit ''a.md''), req_content = JStr (lit ''hello''),
      req_encrypted = JBool True, req_password = JStr []\<rparr> sample_server
   = (Response400 PasswordRequiredToEncrypt, sample_server)
   \<and> SaveDialog_handleSave (sample_env []) sample_crypto sample_json
       (currentDocument (sample_editor (lit ''hello'')))
       \<lparr>sd_saveMode = lit ''custom'', sd_password = [], sd_confirmPassword = []\<rparr>
       (sample_editor (lit ''hello''))
     = (\<lparr>sd_saveMode = lit ''custom'', sd_password = [], sd_confirmPassword = []\<rparr>,
        toast_error PleaseEnterPassword (sample_editor (lit ''hello'')))"
  using C6_missing_password_rejected[where
      req = "\<lparr>req_filePath = JStr (lit ''a.md''), req_content = JStr (lit ''hello''),
              req_encrypted = JBool True, req_password = JStr []\<rparr>"
      and S = sample_server_env and N = sample_node and J = sample_json
      and srv = sample_server
      and dlg = "\<lparr>sd_saveMode = lit ''custom'', sd_password = [], sd_confirmPassword = []\<rparr>"
      and E = "sample_env []" and W = sample_crypto and st = "sample_editor (lit ''hello'')"
      and currentDoc = "currentDocument (sample_editor (lit ''hello''))"]
  by (simp add: lit_def)

lemma sample_custom_save:
  assumes "stringToArrayBuffer password = Inr raw" and "password \<noteq> JUndefined"
  shows "disk (handleSaveDocument (sample_env []) sample_crypto sample_json
           (currentDocument (sample_editor (lit ''hello''))) (sample_editor (lit ''hello''))
           (JStr (lit ''custom'')) password (JBool False)) \<noteq> []
       \<and> currentPasswordRef (handleSaveDocument (sample_env []) sample_crypto sample_json
           (currentDocument (sample_editor (lit ''hello''))) (sample_editor (lit ''hello''))
           (JStr (lit ''custom'')) password (JBool False)) = password"
proof -
  let ?st = "sample_editor (lit ''hello'')"
  obtain envelope rng where
    e: "encryptText sample_crypto (JStr (lit ''hello'')) password sample_entropy
        = (Inr envelope, rng)"
    using sample_encryptText_value[OF assms(1)] by blast
  have t: "trim (content (currentDocument ?st)) \<noteq> []"
    by (simp add: sample_editor_def trim_def js_whitespace_def lit_def)
  have e': "encryptText sample_crypto (JStr (content (currentDocument ?st))) password
        (random_source ?st) = (Inr envelope, rng)"
    using e by (simp add: sample_editor_def)
  have f: "filePath (currentDocument ?st) = None" by (simp add: sample_editor_def)
  have s: "showSaveFilePicker (sample_env [])
      (if fileName (currentDocument ?st) \<noteq> []
       then replace_extension (lit ''.enc.md'') (fileName (currentDocument ?st))
       else lit ''untitled'' @ lit ''.enc.md'') True = Inr sample_handle"
    by (simp add: sample_env_def)
  have w: "write_file (sample_env []) sample_handle
      (formatEncryptedForSave sample_json
         (toISOString (sample_env []) (new_Date (sample_env []))) envelope) = None"
    by (simp add: sample_env_def)
  from handleSaveDocument_encrypted_new_file[OF t refl assms(2) e' f s refl w,
      where isAutoSave = "JBool False"]
  show ?thesis by simp
qed

text \<open>
  The claim as stated fails for \<open>handleSaveDocument\<close>: in custom mode with the empty
  password, and with \<open>null\<close> for an absent one, the document is encrypted and
  written, and that value becomes the session password.
\<close>

theorem C6_counterexample:
  "disk (handleSaveDocument (sample_env []) sample_crypto sample_json
           (currentDocument (sample_editor (lit ''hello''))) (sample_editor (lit ''hello''))
           (JStr (lit ''custom'')) (JStr []) (JBool False)) \<noteq> []
   \<and> currentPasswordRef (handleSaveDocument (sample_env []) sample_crypto sample_json
           (currentDocument (sample_editor (lit ''hello''))) (sample_editor (lit ''hello''))
           (JStr (lit ''custom'')) (JStr []) (JBool False)) = JStr []
   \<and> disk (handleSaveDocument (sample_env []) sample_crypto sample_json
           (currentDocument (sample_editor (lit ''hello''))) (sample_editor (lit ''hello''))
           (JStr (lit ''custom'')) JNull (JBool False)) \<noteq> []
   \<and> currentPasswordRef (handleSaveDocument (sample_env []) sample_crypto sample_json
           (currentDocument (sample_editor (lit ''hello''))) (sample_editor (lit ''hello''))
           (JStr (lit ''custom'')) JNull (JBool False)) = JNull"
proof -
  have "stringToArrayBuffer (JStr []) = Inr (TextEncoder_encode [])"
    by (simp add: stringToArrayBuffer_def)
  moreover have "stringToArrayBuffer JNull = Inr (TextEncoder_encode (lit ''null''))"
    by (simp add: stringToArrayBuffer_def)
  ultimately show ?thesis
    using sample_custom_save[of "JStr []"] sample_custom_save[of JNull] by simp
qed

section \<open>The server's cipher\<close>

text \<open>
  C2 (the server's path, where the claim fails). The server's \<open>encryptText\<close> draws
  a random vector but does not give it to the cipher, and uses no salt: the ciphertext
  depends on the text and the password alone, so two successive calls on the same text
  and password return the same ciphertext.
\<close>

theorem C2_server_ciphertext_repeats:
  "and_then (fst (server_encryptText N t p rng)) (\<lambda>r. js_get r (lit ''encrypted''))
   = and_then (fst (server_encryptText N t p (snd (server_encryptText N t p rng))))
       (\<lambda>r. js_get r (lit ''encrypted''))"
  by (cases "createCipher_run N ENCRYPTION_ALGORITHM
        (if p = JUndefined then ENCRYPTION_KEY N else p) t")
     (simp_all add: server_encryptText_def Let_def case_prod_beta js_get_def)

end
